theory Spec2Isabelle
  imports Complex_Main
begin

section \<open>Scroll diagnostics: \<^verbatim>\<open>src/utils/performanceDiagnostics.ts\<close>\<close>

text \<open>
  The class \<^verbatim>\<open>PerformanceDiagnostics\<close> is a record of its private fields, of the three
  variables closed over by \<^verbatim>\<open>startFrameMonitoring\<close> (\<^verbatim>\<open>lastTime\<close>,
  \<^verbatim>\<open>frameCountInSecond\<close>, \<^verbatim>\<open>secondStart\<close>) and of the part of the browser it talks to:
  the table of pending \<^verbatim>\<open>setTimeout\<close> callbacks (handle and deadline on a millisecond
  clock), the pending \<^verbatim>\<open>requestAnimationFrame\<close> handles, the handle allocator and the
  console. Timestamps of \<^verbatim>\<open>performance.now()\<close> and of animation frames are reals, and
  the arithmetic on them is exact; the rounding of IEEE doubles is modelled for the
  zoom estimate only, where it can change the result by a hundredth. The special
  values a JavaScript number can take where the code divides or takes the maximum of
  nothing are modelled throughout (type \<open>jsnum\<close>).
\<close>

record FrameMetrics =
  timestamp :: real
  frameTime :: real
  scrollTop :: real
  fps :: real

datatype jsnum = Fin real | PosInf | NegInf | NaN

text \<open>\<^verbatim>\<open>a / b\<close> on finite doubles, with the results of a zero divisor.\<close>

definition js_div :: "real \<Rightarrow> real \<Rightarrow> jsnum" where
  "js_div a b =
     (if b = 0 then (if a = 0 then NaN else if 0 < a then PosInf else NegInf)
      else Fin (a / b))"

text \<open>\<^verbatim>\<open>xs.reduce((a, b) => a + b, 0)\<close>\<close>

definition reduce_sum :: "real list \<Rightarrow> real" where
  "reduce_sum xs = foldl (\<lambda>a b. a + b) 0 xs"

text \<open>\<^verbatim>\<open>Math.max(...xs)\<close> and \<^verbatim>\<open>Math.min(...xs)\<close>: \<^verbatim>\<open>-Infinity\<close> and \<^verbatim>\<open>Infinity\<close> on no argument.\<close>

definition Math_max :: "real list \<Rightarrow> jsnum" where
  "Math_max xs = (case xs of [] \<Rightarrow> NegInf | y # ys \<Rightarrow> Fin (foldl max y ys))"

definition Math_min :: "real list \<Rightarrow> jsnum" where
  "Math_min xs = (case xs of [] \<Rightarrow> PosInf | y # ys \<Rightarrow> Fin (foldl min y ys))"

text \<open>\<^verbatim>\<open>Math.round(x)\<close> on a finite double: the nearest integer, ties upwards.\<close>

definition Math_round :: "real \<Rightarrow> real" where
  "Math_round x = of_int \<lfloor>x + 1 / 2\<rfloor>"

text \<open>
  The globals read from \<^verbatim>\<open>window\<close>, \<^verbatim>\<open>window.screen\<close> and \<^verbatim>\<open>navigator\<close>, and the
  engine's rounding of the exact result of an arithmetic operation to a double. Frame
  times are kept exact; the rounding is applied where \<^verbatim>\<open>Math.round\<close> follows a product
  and a rounding error decides the result (a quotient of 201 by 200, times 100, is
  just below 100.5 as a double).
\<close>

record window_env =
  devicePixelRatio :: real
  screen_width :: real
  screen_height :: real
  innerWidth :: real
  innerHeight :: real
  outerWidth :: real
  userAgent :: string
  toDouble :: "real \<Rightarrow> real"

text \<open>
  \<^verbatim>\<open>Math.round((window.outerWidth / window.innerWidth) * 100) / 100\<close>, each operation
  rounded to a double: infinite or \<^verbatim>\<open>NaN\<close> when \<^verbatim>\<open>innerWidth\<close> is 0, as the quotient is.
\<close>

definition chromeZoom_of :: "window_env \<Rightarrow> jsnum" where
  "chromeZoom_of w =
     (case js_div (outerWidth w) (innerWidth w) of
        Fin q \<Rightarrow>
          Fin (toDouble w (Math_round (toDouble w (toDouble w q * 100)) / 100))
      | other \<Rightarrow> other)"

text \<open>
  \<^verbatim>\<open>interface PerformanceReport\<close>. Its fields carry the prefix \<open>r_\<close>, since three of them
  share their names with fields of the class.
\<close>

record PerformanceReport =
  r_devicePixelRatio :: real
  r_screenWidth :: real
  r_screenHeight :: real
  r_windowWidth :: real
  r_windowHeight :: real
  r_chromeZoom :: jsnum
  r_userAgent :: string
  r_avgFps :: jsnum
  r_minFps :: jsnum
  r_maxFps :: jsnum
  r_droppedFrames :: nat
  r_totalFrames :: nat
  r_avgFrameTime :: jsnum
  r_maxFrameTime :: jsnum
  r_cardCount :: int
  r_columnCount :: int

text \<open>
  What the controller lets out: each \<^verbatim>\<open>console.log\<close>/\<^verbatim>\<open>console.warn\<close> of the source is
  one constructor carrying the values the message interpolates (the formatting of
  \<^verbatim>\<open>toFixed\<close> is left out; the lines of one report are one entry), and the object that
  \<^verbatim>\<open>generateReport\<close> hands back to its caller is an entry too.
\<close>

datatype observable =
    LogEnabled
  | LogDisabled
  | LogSystemInfo real real real real real jsnum string
  | LogScrollFps nat real
  | WarnDroppedFrame nat
  | WarnLongFrame real
  | LogScrollStart
  | LogScrollEnd
  | LogGridInfo int int
  | LogScrollReport nat jsnum jsnum jsnum jsnum int int
  | Returned PerformanceReport

record diag =
  enabled :: bool
  frameMetrics :: "FrameMetrics list"
  frameCount :: nat
  droppedFrames :: nat
  rafId :: "nat option"
  isScrolling :: bool
  scrollTimeout :: "nat option"
  cardCount :: int
  columnCount :: int
  lastTime :: real
  frameCountInSecond :: nat
  secondStart :: real
  clock :: nat
  timers :: "(nat \<times> nat) list"
  rafs :: "nat list"
  nextHandle :: nat
  console :: "observable list"

text \<open>
  The instance as \<^verbatim>\<open>new PerformanceDiagnostics()\<close> leaves it. Browsers hand out timer
  and frame handles that are positive integers, so the allocator starts at 1.
\<close>

definition perfDiagnostics :: diag where
  "perfDiagnostics =
     \<lparr>enabled = False, frameMetrics = [], frameCount = 0, droppedFrames = 0,
      rafId = None, isScrolling = False, scrollTimeout = None, cardCount = 0,
      columnCount = 0, lastTime = 0, frameCountInSecond = 0, secondStart = 0,
      clock = 0, timers = [], rafs = [], nextHandle = 1, console = []\<rparr>"

definition emit :: "observable \<Rightarrow> diag \<Rightarrow> diag" where
  "emit x s = s\<lparr>console := console s @ [x]\<rparr>"

text \<open>\<^verbatim>\<open>if (this.scrollTimeout)\<close>: a handle is truthy unless it is \<^verbatim>\<open>null\<close> or 0.\<close>

definition truthy :: "nat option \<Rightarrow> bool" where
  "truthy h = (case h of None \<Rightarrow> False | Some n \<Rightarrow> n \<noteq> 0)"

definition clearTimeout :: "nat option \<Rightarrow> diag \<Rightarrow> diag" where
  "clearTimeout h s =
     (case h of None \<Rightarrow> s
      | Some n \<Rightarrow> s\<lparr>timers := filter (\<lambda>(k, dl). k \<noteq> n) (timers s)\<rparr>)"

definition cancelAnimationFrame :: "nat \<Rightarrow> diag \<Rightarrow> diag" where
  "cancelAnimationFrame n s = s\<lparr>rafs := removeAll n (rafs s)\<rparr>"

text \<open>\<^verbatim>\<open>this.rafId = requestAnimationFrame(measureFrame)\<close>\<close>

definition requestFrame :: "diag \<Rightarrow> diag" where
  "requestFrame s =
     s\<lparr>rafId := Some (nextHandle s), rafs := rafs s @ [nextHandle s],
       nextHandle := nextHandle s + 1\<rparr>"

definition logSystemInfo :: "window_env \<Rightarrow> diag \<Rightarrow> diag" where
  "logSystemInfo w s =
     emit (LogSystemInfo (devicePixelRatio w) (screen_width w) (screen_height w)
             (innerWidth w) (innerHeight w) (chromeZoom_of w) (userAgent w)) s"

text \<open>\<^verbatim>\<open>startFrameMonitoring\<close>, with \<open>t\<close> the value of \<^verbatim>\<open>performance.now()\<close>.\<close>

definition startFrameMonitoring :: "real \<Rightarrow> diag \<Rightarrow> diag" where
  "startFrameMonitoring t s =
     requestFrame (s\<lparr>lastTime := t, frameCountInSecond := 0, secondStart := t\<rparr>)"

definition enable :: "real \<Rightarrow> window_env \<Rightarrow> diag \<Rightarrow> diag" where
  "enable t w s =
     (if enabled s then s
      else emit LogEnabled
             (startFrameMonitoring t (logSystemInfo w (s\<lparr>enabled := True\<rparr>))))"

definition disable :: "diag \<Rightarrow> diag" where
  "disable s =
     (if \<not> enabled s then s
      else let s1 = s\<lparr>enabled := False\<rparr>;
               s2 = (case rafId s1 of None \<Rightarrow> s1
                     | Some n \<Rightarrow> (cancelAnimationFrame n s1)\<lparr>rafId := None\<rparr>)
           in emit LogDisabled s2)"

text \<open>
  The body of \<^verbatim>\<open>measureFrame\<close> in three parts, in the order of the source: the
  once-a-second block (lines 98 to 112), the recording of the sample (lines 114 to
  132), and the whole callback. \<open>ft\<close> is \<^verbatim>\<open>frameTime\<close>, \<open>pos\<close> what \<^verbatim>\<open>getScrollTop()\<close>
  reads from the document at that frame.
\<close>

definition secondWindow :: "real \<Rightarrow> real \<Rightarrow> diag \<Rightarrow> diag" where
  "secondWindow currentTime ft s =
     (if currentTime - secondStart s \<ge> 1000 then
        let fpsW = frameCountInSecond s;
            s1 = (if isScrolling s then
                    let l = emit (LogScrollFps fpsW ft) s
                    in if fpsW < 30
                       then emit (WarnDroppedFrame fpsW) (l\<lparr>droppedFrames := droppedFrames l + 1\<rparr>)
                       else l
                  else s)
        in s1\<lparr>frameCountInSecond := 0, secondStart := currentTime\<rparr>
      else s)"

definition recordFrame :: "real \<Rightarrow> real \<Rightarrow> real \<Rightarrow> diag \<Rightarrow> diag" where
  "recordFrame currentTime ft pos s =
     (if isScrolling s \<and> ft > 0 then
        let pushed = s\<lparr>frameMetrics := frameMetrics s @
                       [\<lparr>timestamp = currentTime, frameTime = ft, scrollTop = pos,
                         fps = 1000 / ft\<rparr>]\<rparr>;
            kept = (if length (frameMetrics pushed) > 100
                    then pushed\<lparr>frameMetrics := tl (frameMetrics pushed)\<rparr>
                    else pushed)
        in if ft > 50 then emit (WarnLongFrame ft) kept else kept
      else s)"

definition measureFrame :: "real \<Rightarrow> real \<Rightarrow> diag \<Rightarrow> diag" where
  "measureFrame currentTime pos s =
     (if \<not> enabled s then s
      else let ft = currentTime - lastTime s;
               s1 = s\<lparr>lastTime := currentTime,
                      frameCountInSecond := frameCountInSecond s + 1\<rparr>;
               s2 = secondWindow currentTime ft s1;
               s3 = recordFrame currentTime ft pos s2;
               s4 = s3\<lparr>frameCount := frameCount s3 + 1\<rparr>
           in requestFrame s4)"

definition onScrollStart :: "diag \<Rightarrow> diag" where
  "onScrollStart s =
     (if \<not> enabled s then s
      else let s1 = emit LogScrollStart (s\<lparr>isScrolling := True\<rparr>)
           in if truthy (scrollTimeout s1) then clearTimeout (scrollTimeout s1) s1 else s1)"

text \<open>\<^verbatim>\<open>this.scrollTimeout = setTimeout(() => {...}, 200)\<close>\<close>

definition onScrollEnd :: "diag \<Rightarrow> diag" where
  "onScrollEnd s =
     (if \<not> enabled s then s
      else let s1 = (if truthy (scrollTimeout s) then clearTimeout (scrollTimeout s) s else s)
           in s1\<lparr>scrollTimeout := Some (nextHandle s1),
                 timers := timers s1 @ [(nextHandle s1, clock s1 + 200)],
                 nextHandle := nextHandle s1 + 1\<rparr>)"

definition updateGridInfo :: "int \<Rightarrow> int \<Rightarrow> diag \<Rightarrow> diag" where
  "updateGridInfo cards cols s =
     (let s1 = s\<lparr>cardCount := cards, columnCount := cols\<rparr>
      in if enabled s1 then emit (LogGridInfo cards cols) s1 else s1)"

definition printScrollReport :: "diag \<Rightarrow> diag" where
  "printScrollReport s =
     (if length (frameMetrics s) = 0 then s
      else let frameTimes = map frameTime (frameMetrics s);
               fpsList = map fps (frameMetrics s);
               avgFrameTime = js_div (reduce_sum frameTimes) (real (length frameTimes));
               maxFrameTime = Math_max frameTimes;
               avgFps = js_div (reduce_sum fpsList) (real (length fpsList));
               minFps = Math_min fpsList
           in (emit (LogScrollReport (length (frameMetrics s)) avgFrameTime maxFrameTime
                       avgFps minFps (cardCount s) (columnCount s)) s)
                \<lparr>frameMetrics := []\<rparr>)"

text \<open>The callback that \<^verbatim>\<open>onScrollEnd\<close> hands to \<^verbatim>\<open>setTimeout\<close>.\<close>

definition scrollEndTimeout :: "diag \<Rightarrow> diag" where
  "scrollEndTimeout s = printScrollReport (emit LogScrollEnd (s\<lparr>isScrolling := False\<rparr>))"

definition generateReport :: "window_env \<Rightarrow> diag \<Rightarrow> PerformanceReport" where
  "generateReport w s =
     (let frameTimes = map frameTime (frameMetrics s);
          fpsList = map fps (frameMetrics s)
      in \<lparr>r_devicePixelRatio = devicePixelRatio w,
          r_screenWidth = screen_width w,
          r_screenHeight = screen_height w,
          r_windowWidth = innerWidth w,
          r_windowHeight = innerHeight w,
          r_chromeZoom = chromeZoom_of w,
          r_userAgent = userAgent w,
          r_avgFps = (if length fpsList > 0
                      then js_div (reduce_sum fpsList) (real (length fpsList)) else Fin 0),
          r_minFps = (if length fpsList > 0 then Math_min fpsList else Fin 0),
          r_maxFps = (if length fpsList > 0 then Math_max fpsList else Fin 0),
          r_droppedFrames = droppedFrames s,
          r_totalFrames = frameCount s,
          r_avgFrameTime = (if length frameTimes > 0
                            then js_div (reduce_sum frameTimes) (real (length frameTimes))
                            else Fin 0),
          r_maxFrameTime = (if length frameTimes > 0 then Math_max frameTimes else Fin 0),
          r_cardCount = cardCount s,
          r_columnCount = columnCount s\<rparr>)"

subsection \<open>The browser's side: frames, timers, calls\<close>

text \<open>
  One event is one task of the page's event loop: a call of a public method, an
  animation frame (the browser runs the pending frame callbacks, all of them
  \<^verbatim>\<open>measureFrame\<close>, with the frame's timestamp), or \<open>d\<close> milliseconds passing, after
  which the timers that are due have fired in the order they were set.
\<close>

datatype event =
    Enable real window_env
  | Disable
  | AnimationFrame real real
  | OnScrollStart
  | OnScrollEnd
  | UpdateGridInfo int int
  | GenerateReport window_env
  | Elapse nat

definition animationFrame :: "real \<Rightarrow> real \<Rightarrow> diag \<Rightarrow> diag" where
  "animationFrame t pos s = fold (\<lambda>h. measureFrame t pos) (rafs s) (s\<lparr>rafs := []\<rparr>)"

definition elapse :: "nat \<Rightarrow> diag \<Rightarrow> diag" where
  "elapse d s =
     (let t = clock s + d;
          due = filter (\<lambda>(h, dl). dl \<le> t) (timers s);
          rest = filter (\<lambda>(h, dl). \<not> dl \<le> t) (timers s)
      in fold (\<lambda>h. scrollEndTimeout) due (s\<lparr>clock := t, timers := rest\<rparr>))"

fun step :: "event \<Rightarrow> diag \<Rightarrow> diag" where
  "step (Enable t w) s = enable t w s"
| "step Disable s = disable s"
| "step (AnimationFrame t pos) s = animationFrame t pos s"
| "step OnScrollStart s = onScrollStart s"
| "step OnScrollEnd s = onScrollEnd s"
| "step (UpdateGridInfo cards cols) s = updateGridInfo cards cols s"
| "step (GenerateReport w) s = emit (Returned (generateReport w s)) s"
| "step (Elapse d) s = elapse d s"

definition run :: "event list \<Rightarrow> diag \<Rightarrow> diag" where
  "run es s = fold step es s"

section \<open>The shared scroll state: \<^verbatim>\<open>composables/useGlobalScrollState\<close>\<close>

text \<open>
  The module-level variables of the singleton, with the prefix \<open>sig_\<close> where a name is
  already a field of the diagnostics class, and the browser around them: a millisecond
  clock, the pending timers (handle and deadline), the pending animation-frame
  requests, the handle allocator, whether \<^verbatim>\<open>handleScrollEvent\<close> is registered on
  \<^verbatim>\<open>window\<close> for \<^verbatim>\<open>scroll\<close> (\<^verbatim>\<open>addEventListener\<close> keeps one registration of a given
  function) and how many times it is registered on the emitter for
  \<^verbatim>\<open>OVERLAY_SCROLL_BAR_SCROLL\<close> (the emitter keeps every registration).
\<close>

record signal =
  sig_isScrolling :: bool
  sig_scrollTimeout :: "nat option"
  listenerCount :: int
  isListenerAttached :: bool
  scrollRAF :: "nat option"
  sig_clock :: nat
  sig_timers :: "(nat \<times> nat) list"
  sig_rafs :: "nat list"
  sig_nextHandle :: nat
  windowScroll :: bool
  emitterScroll :: nat

definition globalScrollState :: signal where
  "globalScrollState =
     \<lparr>sig_isScrolling = False, sig_scrollTimeout = None, listenerCount = 0,
      isListenerAttached = False, scrollRAF = None, sig_clock = 0, sig_timers = [],
      sig_rafs = [], sig_nextHandle = 1, windowScroll = False, emitterScroll = 0\<rparr>"

definition sig_clearTimeout :: "nat option \<Rightarrow> signal \<Rightarrow> signal" where
  "sig_clearTimeout h s =
     (case h of None \<Rightarrow> s
      | Some n \<Rightarrow> s\<lparr>sig_timers := filter (\<lambda>(k, dl). k \<noteq> n) (sig_timers s)\<rparr>)"

definition sig_cancelAnimationFrame :: "nat \<Rightarrow> signal \<Rightarrow> signal" where
  "sig_cancelAnimationFrame n s = s\<lparr>sig_rafs := removeAll n (sig_rafs s)\<rparr>"

text \<open>
  \<^verbatim>\<open>handleScrollEvent\<close>: it returns at once while a frame request is pending, before
  it reaches the timer.
\<close>

definition handleScrollEvent :: "signal \<Rightarrow> signal" where
  "handleScrollEvent s =
     (if scrollRAF s \<noteq> None then s
      else let s1 = s\<lparr>scrollRAF := Some (sig_nextHandle s),
                      sig_rafs := sig_rafs s @ [sig_nextHandle s],
                      sig_nextHandle := sig_nextHandle s + 1\<rparr>;
               s2 = (if truthy (sig_scrollTimeout s1)
                     then sig_clearTimeout (sig_scrollTimeout s1) s1 else s1)
           in s2\<lparr>sig_scrollTimeout := Some (sig_nextHandle s2),
                 sig_timers := sig_timers s2 @ [(sig_nextHandle s2, sig_clock s2 + 150)],
                 sig_nextHandle := sig_nextHandle s2 + 1\<rparr>)"

text \<open>The two callbacks that \<^verbatim>\<open>handleScrollEvent\<close> schedules.\<close>

definition scrollFrameCallback :: "signal \<Rightarrow> signal" where
  "scrollFrameCallback s = s\<lparr>sig_isScrolling := True, scrollRAF := None\<rparr>"

definition scrollIdleCallback :: "signal \<Rightarrow> signal" where
  "scrollIdleCallback s = s\<lparr>sig_isScrolling := False\<rparr>"

definition addScrollListener :: "signal \<Rightarrow> signal" where
  "addScrollListener s =
     (let s1 = s\<lparr>listenerCount := listenerCount s + 1\<rparr>
      in if \<not> isListenerAttached s1
         then s1\<lparr>windowScroll := True, emitterScroll := emitterScroll s1 + 1,
                 isListenerAttached := True\<rparr>
         else s1)"

definition removeScrollListener :: "signal \<Rightarrow> signal" where
  "removeScrollListener s =
     (let s1 = s\<lparr>listenerCount := listenerCount s - 1\<rparr>
      in if listenerCount s1 \<le> 0 \<and> isListenerAttached s1 then
           let s2 = s1\<lparr>windowScroll := False, emitterScroll := emitterScroll s1 - 1,
                        isListenerAttached := False, listenerCount := 0\<rparr>;
               s3 = (if truthy (sig_scrollTimeout s2)
                     then (sig_clearTimeout (sig_scrollTimeout s2) s2)\<lparr>sig_scrollTimeout := None\<rparr>
                     else s2)
           in (case scrollRAF s3 of None \<Rightarrow> s3
               | Some n \<Rightarrow> (sig_cancelAnimationFrame n s3)\<lparr>scrollRAF := None\<rparr>)
         else s1)"

text \<open>
  The tasks of the event loop that reach the singleton: a component mounting or
  unmounting (\<^verbatim>\<open>useGlobalScrollState\<close> calls the two functions above from
  \<^verbatim>\<open>onMounted\<close> and \<^verbatim>\<open>onBeforeUnmount\<close>), a scroll event of the window, a scroll event of
  the scrollbar library sent through the emitter, an animation frame, and time passing.
\<close>

datatype sig_event =
    AddScrollListener
  | RemoveScrollListener
  | NativeScroll
  | OverlayScroll
  | Frame
  | Wait nat

fun sig_step :: "sig_event \<Rightarrow> signal \<Rightarrow> signal" where
  "sig_step AddScrollListener s = addScrollListener s"
| "sig_step RemoveScrollListener s = removeScrollListener s"
| "sig_step NativeScroll s = (if windowScroll s then handleScrollEvent s else s)"
| "sig_step OverlayScroll s = (handleScrollEvent ^^ emitterScroll s) s"
| "sig_step Frame s = fold (\<lambda>h. scrollFrameCallback) (sig_rafs s) (s\<lparr>sig_rafs := []\<rparr>)"
| "sig_step (Wait d) s =
     (let t = sig_clock s + d;
          due = filter (\<lambda>(h, dl). dl \<le> t) (sig_timers s);
          rest = filter (\<lambda>(h, dl). \<not> dl \<le> t) (sig_timers s)
      in fold (\<lambda>h. scrollIdleCallback) due (s\<lparr>sig_clock := t, sig_timers := rest\<rparr>))"

definition sig_run :: "sig_event list \<Rightarrow> signal \<Rightarrow> signal" where
  "sig_run es s = fold sig_step es s"

section \<open>The DPR fix and the scrolling marker: \<^verbatim>\<open>useDPRPerformanceFix\<close>\<close>

text \<open>
  The version of the composable that marks \<^verbatim>\<open>document.body\<close>. A style sheet's text is
  the list of its rules, each a list of selectors and a list of declarations (comments
  and white space are left out); a text with no rule is the empty string, which
  \<^verbatim>\<open>if (style.textContent)\<close> takes as false.
\<close>

record css_rule =
  selectors :: "string list"
  declarations :: "(string \<times> string) list"

record style_node =
  node :: nat
  node_id :: string
  textContent :: "css_rule list"

text \<open>
  The document: the children of \<^verbatim>\<open>head\<close>, the class list of \<^verbatim>\<open>body\<close>, the attributes
  of every element below \<^verbatim>\<open>body\<close> (one association list per element), the next
  identity \<^verbatim>\<open>createElement\<close> gives out, and the log of the mutating calls made on it.
\<close>

datatype dom_op =
    ClassListAdd string
  | ClassListRemove string
  | AppendChild nat
  | RemoveNode nat

record dom =
  headChildren :: "style_node list"
  bodyClassList :: "string list"
  elements :: "(string \<times> string) list list"
  nextNode :: nat
  domLog :: "dom_op list"

definition classList_add :: "string \<Rightarrow> dom \<Rightarrow> dom" where
  "classList_add c d =
     d\<lparr>bodyClassList := (if c \<in> set (bodyClassList d) then bodyClassList d
                          else bodyClassList d @ [c]),
       domLog := domLog d @ [ClassListAdd c]\<rparr>"

definition classList_remove :: "string \<Rightarrow> dom \<Rightarrow> dom" where
  "classList_remove c d =
     d\<lparr>bodyClassList := removeAll c (bodyClassList d),
       domLog := domLog d @ [ClassListRemove c]\<rparr>"

text \<open>\<^verbatim>\<open>el.remove()\<close>: takes the node out of its parent, if it has one.\<close>

definition node_remove :: "style_node \<Rightarrow> dom \<Rightarrow> dom" where
  "node_remove x d =
     d\<lparr>headChildren := filter (\<lambda>n. node n \<noteq> node x) (headChildren d),
       domLog := domLog d @ [RemoveNode (node x)]\<rparr>"

definition head_appendChild :: "style_node \<Rightarrow> dom \<Rightarrow> dom" where
  "head_appendChild x d =
     d\<lparr>headChildren := filter (\<lambda>n. node n \<noteq> node x) (headChildren d) @ [x],
       domLog := domLog d @ [AppendChild (node x)]\<rparr>"

text \<open>
  One call of \<^verbatim>\<open>useDPRPerformanceFix()\<close>: its two refs, whether its \<^verbatim>\<open>handleChange\<close>
  is registered on the media query and on \<^verbatim>\<open>resize\<close> of the window, and whether its
  \<^verbatim>\<open>watchEffect\<close> is still running. The document is shared by all calls, so the
  functions below take and return an instance together with the document.
\<close>

record dpr_fix =
  currentDPR :: real
  styleElement :: "style_node option"
  listening :: bool
  effectLive :: bool

definition isLowDPR :: "dpr_fix \<Rightarrow> bool" where
  "isLowDPR s = (currentDPR s \<le> 1.25)"

definition isDPR1 :: "dpr_fix \<Rightarrow> bool" where
  "isDPR1 s = (\<bar>currentDPR s - 1.0\<bar> < 0.01)"

text \<open>The two template strings of \<^verbatim>\<open>injectOptimizationCSS\<close>.\<close>

definition css_dpr1 :: "css_rule list" where
  "css_dpr1 =
     [\<lparr>selectors = [''body.bewly-scrolling .video-card-container'',
                     ''body.bewly-scrolling .video-card-container *''],
       declarations = [(''transition'', ''none !important''),
                       (''animation'', ''none !important'')]\<rparr>]"

definition css_low :: "css_rule list" where
  "css_low =
     [\<lparr>selectors = [''body.bewly-scrolling .video-card-container''],
       declarations = [(''transition'', ''none !important'')]\<rparr>]"

definition injectOptimizationCSS :: "dpr_fix \<times> dom \<Rightarrow> dpr_fix \<times> dom" where
  "injectOptimizationCSS sd =
     (let s = fst sd;
          d1 = (case styleElement s of None \<Rightarrow> snd sd
                | Some old \<Rightarrow> node_remove old (snd sd));
          style = \<lparr>node = nextNode d1, node_id = ''bewly-dpr-perf-fix'',
                   textContent = (if isDPR1 s then css_dpr1
                                  else if isLowDPR s then css_low else [])\<rparr>;
          d2 = d1\<lparr>nextNode := nextNode d1 + 1\<rparr>
      in if textContent style \<noteq> []
         then (s\<lparr>styleElement := Some style\<rparr>, head_appendChild style d2)
         else (s, d2))"

text \<open>\<^verbatim>\<open>updateDPR\<close> reads \<^verbatim>\<open>window.devicePixelRatio\<close>, here the argument \<open>r\<close>.\<close>

definition updateDPR :: "real \<Rightarrow> dpr_fix \<Rightarrow> dpr_fix" where
  "updateDPR r s = s\<lparr>currentDPR := r\<rparr>"

definition handleChange :: "real \<Rightarrow> dpr_fix \<times> dom \<Rightarrow> dpr_fix \<times> dom" where
  "handleChange r sd = injectOptimizationCSS (updateDPR r (fst sd), snd sd)"

definition cleanup :: "dpr_fix \<times> dom \<Rightarrow> dpr_fix \<times> dom" where
  "cleanup sd =
     (let sd1 = (case styleElement (fst sd) of None \<Rightarrow> sd
                 | Some old \<Rightarrow>
                     ((fst sd)\<lparr>styleElement := None\<rparr>, node_remove old (snd sd)))
      in (fst sd1, classList_remove ''bewly-scrolling'' (snd sd1)))"

text \<open>
  The function given to \<^verbatim>\<open>watchEffect\<close>; \<^verbatim>\<open>if (currentDPR.value)\<close> is false on 0. Vue
  runs it once at once, and once more after a task in which other code has changed a
  ref that it read (\<^verbatim>\<open>currentDPR\<close>, \<^verbatim>\<open>styleElement\<close>), for as long as the component is
  not unmounted; \<open>before\<close> is the instance as it was at the start of the task.
\<close>

definition dprEffect :: "dpr_fix \<times> dom \<Rightarrow> dpr_fix \<times> dom" where
  "dprEffect sd = (if currentDPR (fst sd) \<noteq> 0 then injectOptimizationCSS sd else sd)"

definition rerunEffect :: "dpr_fix \<Rightarrow> dpr_fix \<times> dom \<Rightarrow> dpr_fix \<times> dom" where
  "rerunEffect before sd =
     (if effectLive (fst sd) \<and>
         (currentDPR (fst sd) \<noteq> currentDPR before \<or>
          styleElement (fst sd) \<noteq> styleElement before)
      then dprEffect sd else sd)"

text \<open>
  \<^verbatim>\<open>useDPRPerformanceFix()\<close> in the setup of a component, with \<open>r\<close> the device pixel ratio
  at that moment: the refs are created and the effect runs for the first time.
\<close>

definition useDPRPerformanceFix :: "real \<Rightarrow> dom \<Rightarrow> dpr_fix \<times> dom" where
  "useDPRPerformanceFix r d =
     dprEffect (\<lparr>currentDPR = r, styleElement = None, listening = False,
                  effectLive = True\<rparr>, d)"

text \<open>
  The hook given to \<^verbatim>\<open>onMounted\<close>: the first injection, then \<^verbatim>\<open>handleChange\<close> is
  registered on the media query and on the window.
\<close>

definition onMounted :: "dpr_fix \<times> dom \<Rightarrow> dpr_fix \<times> dom" where
  "onMounted sd =
     (let sd1 = injectOptimizationCSS sd
      in rerunEffect (fst sd) ((fst sd1)\<lparr>listening := True\<rparr>, snd sd1))"

text \<open>
  The hook given to \<^verbatim>\<open>onUnmounted\<close>, which is \<^verbatim>\<open>cleanup\<close>; Vue has stopped the effect
  by then. Neither listener is removed.
\<close>

definition onUnmounted :: "dpr_fix \<times> dom \<Rightarrow> dpr_fix \<times> dom" where
  "onUnmounted sd = cleanup ((fst sd)\<lparr>effectLive := False\<rparr>, snd sd)"

text \<open>
  A \<^verbatim>\<open>resize\<close> of the window or a change of the media query, with \<open>r\<close> the device pixel
  ratio after it, as it reaches one instance and as it reaches all of them in turn.
\<close>

definition onResize :: "real \<Rightarrow> dpr_fix \<times> dom \<Rightarrow> dpr_fix \<times> dom" where
  "onResize r sd = (if listening (fst sd) then rerunEffect (fst sd) (handleChange r sd) else sd)"

fun resizeAll :: "real \<Rightarrow> dpr_fix list \<Rightarrow> dom \<Rightarrow> dpr_fix list \<times> dom" where
  "resizeAll r [] d = ([], d)"
| "resizeAll r (s # ss) d =
     (let sd = onResize r (s, d); rest = resizeAll r ss (snd sd)
      in (fst sd # fst rest, snd rest))"

text \<open>
  The instances of a page, in the order of their creation, and the tasks that reach
  them: a component that uses the composable is set up, the \<open>i\<close>-th instance's
  component is mounted or unmounted, the window is resized.
\<close>

datatype dpr_event =
    Setup real
  | Mounted nat
  | Unmounted nat
  | Resize real

definition atInstance ::
  "nat \<Rightarrow> (dpr_fix \<times> dom \<Rightarrow> dpr_fix \<times> dom) \<Rightarrow> dpr_fix list \<times> dom \<Rightarrow> dpr_fix list \<times> dom"
where
  "atInstance i f fd =
     (if i < length (fst fd)
      then let sd = f (fst fd ! i, snd fd) in ((fst fd)[i := fst sd], snd sd)
      else fd)"

fun dpr_step :: "dpr_event \<Rightarrow> dpr_fix list \<times> dom \<Rightarrow> dpr_fix list \<times> dom" where
  "dpr_step (Setup r) fd =
     (let sd = useDPRPerformanceFix r (snd fd) in (fst fd @ [fst sd], snd sd))"
| "dpr_step (Mounted i) fd = atInstance i onMounted fd"
| "dpr_step (Unmounted i) fd = atInstance i onUnmounted fd"
| "dpr_step (Resize r) fd = resizeAll r (fst fd) (snd fd)"

definition dpr_run :: "dpr_event list \<Rightarrow> dpr_fix list \<times> dom \<Rightarrow> dpr_fix list \<times> dom" where
  "dpr_run es fd = fold dpr_step es fd"

text \<open>
  The callback that \<^verbatim>\<open>useScrollingOptimization\<close> hands to \<^verbatim>\<open>watch(isScrolling, ...)\<close>.
\<close>

definition scrollingWatcher :: "bool \<Rightarrow> dom \<Rightarrow> dom" where
  "scrollingWatcher scrolling d =
     (if scrolling then classList_add ''bewly-scrolling'' d
      else classList_remove ''bewly-scrolling'' d)"

text \<open>
  The singleton and a document with the watcher installed. After each task Vue runs a
  watcher's callback once if the watched value differs from the one the watcher saw
  last, with the new value.
\<close>

definition watched_step :: "sig_event \<Rightarrow> signal \<times> dom \<Rightarrow> signal \<times> dom" where
  "watched_step e sd =
     (let s' = sig_step e (fst sd)
      in (s', if sig_isScrolling s' \<noteq> sig_isScrolling (fst sd)
              then scrollingWatcher (sig_isScrolling s') (snd sd) else snd sd))"

section \<open>Notions of the specification\<close>

text \<open>The capacity invariant of the sample buffer.\<close>

definition bounded :: "diag \<Rightarrow> bool" where
  "bounded s = (length (frameMetrics s) \<le> 100)"

text \<open>The sample that \<^verbatim>\<open>measureFrame\<close> pushes for a frame at time \<open>t\<close>.\<close>

definition sampleOf :: "diag \<Rightarrow> real \<Rightarrow> real \<Rightarrow> FrameMetrics" where
  "sampleOf s t pos =
     \<lparr>timestamp = t, frameTime = t - lastTime s, scrollTop = pos,
      fps = 1000 / (t - lastTime s)\<rparr>"

text \<open>
  A window of a desktop browser at 100% zoom, for the worked examples. Its quotients
  are doubles already, so the identity stands for the rounding.
\<close>

definition desktop :: window_env where
  "desktop =
     \<lparr>devicePixelRatio = 1, screen_width = 1920, screen_height = 1080,
      innerWidth = 1920, innerHeight = 969, outerWidth = 1920,
      userAgent = ''Mozilla/5.0'', toDouble = (\<lambda>x. x)\<rparr>"

text \<open>What a step added to the console.\<close>

definition newOutput :: "diag \<Rightarrow> diag \<Rightarrow> observable list" where
  "newOutput s s' = drop (length (console s)) (console s')"

text \<open>The frame at time \<open>t\<close> ends the running one-second window.\<close>

definition windowCloses :: "diag \<Rightarrow> real \<Rightarrow> bool" where
  "windowCloses s t = (t - secondStart s \<ge> 1000)"

text \<open>Counting the dropped-frame warnings, the end-of-scroll lines and the reports.\<close>

fun droppedWarnings :: "observable list \<Rightarrow> nat" where
  "droppedWarnings [] = 0"
| "droppedWarnings (WarnDroppedFrame n # xs) = Suc (droppedWarnings xs)"
| "droppedWarnings (x # xs) = droppedWarnings xs"

fun scrollEnds :: "observable list \<Rightarrow> nat" where
  "scrollEnds [] = 0"
| "scrollEnds (LogScrollEnd # xs) = Suc (scrollEnds xs)"
| "scrollEnds (x # xs) = scrollEnds xs"

fun scrollReports :: "observable list \<Rightarrow> nat" where
  "scrollReports [] = 0"
| "scrollReports (LogScrollReport n a b c d e f # xs) = Suc (scrollReports xs)"
| "scrollReports (x # xs) = scrollReports xs"

fun returnedReports :: "observable list \<Rightarrow> nat" where
  "returnedReports [] = 0"
| "returnedReports (Returned r # xs) = Suc (returnedReports xs)"
| "returnedReports (x # xs) = returnedReports xs"

text \<open>
  The end-of-scroll timer is the only timer of the controller: at most one is pending,
  and \<^verbatim>\<open>scrollTimeout\<close> holds its handle.
\<close>

definition timers_ok :: "diag \<Rightarrow> bool" where
  "timers_ok s =
     (0 < nextHandle s \<and>
      (case timers s of [] \<Rightarrow> True
       | (h, dl) # rest \<Rightarrow> rest = [] \<and> scrollTimeout s = Some h \<and> 0 < h))"

text \<open>Events that are neither a scroll notification, nor time passing, nor a switch.\<close>

fun quiet :: "event \<Rightarrow> bool" where
  "quiet (AnimationFrame t p) = True"
| "quiet (UpdateGridInfo a b) = True"
| "quiet (GenerateReport w) = True"
| "quiet e = False"

text \<open>
  Two scroll gestures in quick succession: \<^verbatim>\<open>onScrollStart\<close>, \<^verbatim>\<open>onScrollEnd\<close>,
  \<^verbatim>\<open>onScrollStart\<close>, \<^verbatim>\<open>onScrollEnd\<close>, with \<open>a\<close>, \<open>b\<close> and \<open>c\<close> milliseconds between the
  calls and quiet events in the gaps.
\<close>

definition twoGestures ::
  "event list \<Rightarrow> nat \<Rightarrow> event list \<Rightarrow> nat \<Rightarrow> event list \<Rightarrow> nat \<Rightarrow> event list \<Rightarrow> event list"
where
  "twoGestures f1 a f2 b f3 c f4 =
     [OnScrollStart] @ f1 @ [Elapse a, OnScrollEnd] @ f2 @
     [Elapse b, OnScrollStart] @ f3 @ [Elapse c, OnScrollEnd] @ f4"

text \<open>What the debounce logic depends on is untouched by quiet events.\<close>

definition same_debounce :: "diag \<Rightarrow> diag \<Rightarrow> bool" where
  "same_debounce s s' =
     (timers s' = timers s \<and> scrollTimeout s' = scrollTimeout s \<and> clock s' = clock s \<and>
      enabled s' = enabled s \<and> isScrolling s' = isScrolling s \<and>
      scrollEnds (console s') = scrollEnds (console s) \<and>
      scrollReports (console s') = scrollReports (console s) \<and>
      nextHandle s \<le> nextHandle s')"

text \<open>The controller between gestures, and with its end-of-scroll timer set for \<open>dl\<close>.\<close>

definition unarmed :: "diag \<Rightarrow> bool" where
  "unarmed s = (enabled s \<and> 0 < nextHandle s \<and> timers s = [])"

definition armed :: "nat \<Rightarrow> diag \<Rightarrow> bool" where
  "armed dl s = (enabled s \<and> 0 < nextHandle s \<and>
     (\<exists>h. timers s = [(h, dl)] \<and> scrollTimeout s = Some h \<and> 0 < h))"

text \<open>
  A rapid succession of calls: \<^verbatim>\<open>onScrollStart\<close> and \<^verbatim>\<open>onScrollEnd\<close> in any order and
  number, frames, grid updates and report requests in between, and time passing as
  long as less than 200 ms have passed since the last \<^verbatim>\<open>onScrollEnd\<close> that no
  \<^verbatim>\<open>onScrollStart\<close> has followed. The first argument is the time since that
  \<^verbatim>\<open>onScrollEnd\<close>, if there is one; the second function gives it at the end.
\<close>

fun rapid :: "nat option \<Rightarrow> event list \<Rightarrow> bool" where
  "rapid r [] = True"
| "rapid r (OnScrollStart # es) = rapid None es"
| "rapid r (OnScrollEnd # es) = rapid (Some 0) es"
| "rapid r (Elapse d # es) =
     (case r of None \<Rightarrow> rapid None es
      | Some t \<Rightarrow> t + d < 200 \<and> rapid (Some (t + d)) es)"
| "rapid r (AnimationFrame t p # es) = rapid r es"
| "rapid r (UpdateGridInfo a b # es) = rapid r es"
| "rapid r (GenerateReport w # es) = rapid r es"
| "rapid r (Enable t w # es) = False"
| "rapid r (Disable # es) = False"

fun sinceEnd :: "nat option \<Rightarrow> event list \<Rightarrow> nat option" where
  "sinceEnd r [] = r"
| "sinceEnd r (OnScrollStart # es) = sinceEnd None es"
| "sinceEnd r (OnScrollEnd # es) = sinceEnd (Some 0) es"
| "sinceEnd r (Elapse d # es) =
     (case r of None \<Rightarrow> sinceEnd None es | Some t \<Rightarrow> sinceEnd (Some (t + d)) es)"
| "sinceEnd r (AnimationFrame t p # es) = sinceEnd r es"
| "sinceEnd r (UpdateGridInfo a b # es) = sinceEnd r es"
| "sinceEnd r (GenerateReport w # es) = sinceEnd r es"
| "sinceEnd r (Enable t w # es) = sinceEnd r es"
| "sinceEnd r (Disable # es) = sinceEnd r es"

text \<open>
  The controller \<open>t\<close> ms after such an \<^verbatim>\<open>onScrollEnd\<close>: its timer is set for 200 ms
  after the call.
\<close>

definition track :: "nat option \<Rightarrow> diag \<Rightarrow> bool" where
  "track r s =
     (case r of None \<Rightarrow> unarmed s
      | Some t \<Rightarrow> t \<le> clock s \<and> armed (clock s + 200 - t) s)"

text \<open>
  The state of the singleton that the reference count is meant to maintain: the
  listeners are on exactly while the count is positive, each source holds one
  registration then and none otherwise, the only timer and the only frame request
  pending are the ones the module variables name, and nothing is pending while the
  listeners are off.
\<close>

definition sig_inv :: "signal \<Rightarrow> bool" where
  "sig_inv s =
     (0 < sig_nextHandle s \<and>
      (isListenerAttached s \<longleftrightarrow> 0 < listenerCount s) \<and>
      (windowScroll s \<longleftrightarrow> isListenerAttached s) \<and>
      emitterScroll s = (if isListenerAttached s then 1 else 0) \<and>
      (case sig_timers s of [] \<Rightarrow> True
       | (h, dl) # rest \<Rightarrow> rest = [] \<and> sig_scrollTimeout s = Some h \<and> 0 < h) \<and>
      sig_rafs s = (case scrollRAF s of None \<Rightarrow> [] | Some h \<Rightarrow> [h]) \<and>
      (isListenerAttached s \<or> (sig_timers s = [] \<and> sig_rafs s = [])))"

text \<open>
  Balanced use, from \<open>n\<close> subscribers: no unsubscribe without a subscriber. The second
  function counts the subscribers left at the end.
\<close>

fun balanced :: "nat \<Rightarrow> sig_event list \<Rightarrow> bool" where
  "balanced n [] = True"
| "balanced n (AddScrollListener # es) = balanced (Suc n) es"
| "balanced n (RemoveScrollListener # es) = (0 < n \<and> balanced (n - 1) es)"
| "balanced n (NativeScroll # es) = balanced n es"
| "balanced n (OverlayScroll # es) = balanced n es"
| "balanced n (Frame # es) = balanced n es"
| "balanced n (Wait d # es) = balanced n es"

fun subscribers :: "nat \<Rightarrow> sig_event list \<Rightarrow> nat" where
  "subscribers n [] = n"
| "subscribers n (AddScrollListener # es) = subscribers (Suc n) es"
| "subscribers n (RemoveScrollListener # es) = subscribers (n - 1) es"
| "subscribers n (e # es) = subscribers n es"

text \<open>Events other than a subscribe or an unsubscribe.\<close>

fun ambient :: "sig_event \<Rightarrow> bool" where
  "ambient AddScrollListener = False"
| "ambient RemoveScrollListener = False"
| "ambient e = True"

text \<open>
  \<open>N\<close> subscribes, then the events \<open>mid\<close>, then \<open>k\<close> unsubscribes.
\<close>

definition session :: "nat \<Rightarrow> sig_event list \<Rightarrow> nat \<Rightarrow> sig_event list" where
  "session N mid k =
     replicate N AddScrollListener @ mid @ replicate k RemoveScrollListener"

text \<open>
  The style elements in \<^verbatim>\<open>head\<close> that carry the id of the fix, and the condition under
  which an instance owns them: each of them is the element its \<^verbatim>\<open>styleElement\<close> refers to.
\<close>

definition injected :: "dom \<Rightarrow> style_node list" where
  "injected d = filter (\<lambda>n. node_id n = ''bewly-dpr-perf-fix'') (headChildren d)"

definition dpr_ok :: "dpr_fix \<times> dom \<Rightarrow> bool" where
  "dpr_ok sd = list_all (\<lambda>n. styleElement (fst sd) = Some n) (injected (snd sd))"

text \<open>The style sheet that \<^verbatim>\<open>injectOptimizationCSS\<close> builds for a device pixel ratio.\<close>

definition sheetFor :: "real \<Rightarrow> css_rule list" where
  "sheetFor r =
     (if \<bar>r - 1.0\<bar> < 0.01 then css_dpr1 else if r \<le> 1.25 then css_low else [])"

text \<open>
  The properties a style sheet declares, and whether one of them puts an element on a
  compositing layer of its own (\<^verbatim>\<open>transform\<close>, \<^verbatim>\<open>will-change\<close>).
\<close>

definition declared :: "css_rule list \<Rightarrow> string list" where
  "declared rules = map fst (concat (map declarations rules))"

definition promotesLayer :: "css_rule list \<Rightarrow> bool" where
  "promotesLayer rules =
     list_ex (\<lambda>p. p = ''transform'' \<or> p = ''will-change'') (declared rules)"

text \<open>Every selector of the sheet is under the marker class of \<^verbatim>\<open>body\<close>.\<close>

definition underMarker :: "css_rule list \<Rightarrow> bool" where
  "underMarker rules =
     list_all (\<lambda>sel. take 21 sel = ''body.bewly-scrolling '') (concat (map selectors rules))"

text \<open>A document with three cards and nothing in its head, for the worked examples.\<close>

definition threeCards :: dom where
  "threeCards =
     \<lparr>headChildren = [], bodyClassList = [],
      elements = [[(''class'', ''video-card-container'')],
                  [(''class'', ''video-card-container'')],
                  [(''class'', ''video-card-container'')]],
      nextNode = 0, domLog = []\<rparr>"

section \<open>The frame sampler\<close>

lemma fold_const_inv:
  "(\<And>s. P s \<Longrightarrow> P (f s)) \<Longrightarrow> P s \<Longrightarrow> P (fold (\<lambda>h. f) xs s)"
  by (induction xs arbitrary: s) auto

lemma frameMetrics_secondWindow [simp]:
  "frameMetrics (secondWindow t ft s) = frameMetrics s"
  by (simp add: secondWindow_def emit_def Let_def)

lemma isScrolling_secondWindow [simp]:
  "isScrolling (secondWindow t ft s) = isScrolling s"
  by (simp add: secondWindow_def emit_def Let_def)

lemma frameMetrics_recordFrame:
  "frameMetrics (recordFrame t ft p s) =
     (if isScrolling s \<and> ft > 0
      then (if length (frameMetrics s) \<ge> 100
            then tl (frameMetrics s @
                   [\<lparr>timestamp = t, frameTime = ft, scrollTop = p, fps = 1000 / ft\<rparr>])
            else frameMetrics s @
                   [\<lparr>timestamp = t, frameTime = ft, scrollTop = p, fps = 1000 / ft\<rparr>])
      else frameMetrics s)"
  by (simp add: recordFrame_def emit_def Let_def)

lemma frameMetrics_measureFrame:
  "frameMetrics (measureFrame t p s) =
     (if enabled s \<and> isScrolling s \<and> t - lastTime s > 0
      then (if length (frameMetrics s) \<ge> 100
            then tl (frameMetrics s @ [sampleOf s t p])
            else frameMetrics s @ [sampleOf s t p])
      else frameMetrics s)"
  by (simp add: measureFrame_def requestFrame_def frameMetrics_recordFrame Let_def
      sampleOf_def)

lemma bounded_measureFrame: "bounded s \<Longrightarrow> bounded (measureFrame t p s)"
  by (auto simp add: bounded_def frameMetrics_measureFrame)

lemma bounded_scrollEndTimeout: "bounded s \<Longrightarrow> bounded (scrollEndTimeout s)"
  by (simp add: bounded_def scrollEndTimeout_def printScrollReport_def emit_def Let_def)

lemma bounded_step: "bounded s \<Longrightarrow> bounded (step e s)"
proof (cases e)
  case (AnimationFrame t p)
  assume b: "bounded s"
  have "bounded (s\<lparr>rafs := []\<rparr>)"
    using b by (simp add: bounded_def)
  then show ?thesis
    using AnimationFrame
    by (simp add: animationFrame_def fold_const_inv [where P = bounded] bounded_measureFrame)
next
  case (Elapse d)
  assume b: "bounded s"
  have "bounded (s\<lparr>clock := clock s + d,
                   timers := filter (\<lambda>(h, dl). \<not> dl \<le> clock s + d) (timers s)\<rparr>)"
    using b by (simp add: bounded_def)
  then show ?thesis
    using Elapse
    by (simp add: elapse_def Let_def fold_const_inv [where P = bounded]
        bounded_scrollEndTimeout)
qed (auto simp add: bounded_def enable_def disable_def onScrollStart_def onScrollEnd_def
      updateGridInfo_def emit_def startFrameMonitoring_def requestFrame_def logSystemInfo_def
      clearTimeout_def cancelAnimationFrame_def Let_def split: option.splits)

lemma bounded_run: "bounded s \<Longrightarrow> bounded (run es s)"
  unfolding run_def by (induction es arbitrary: s) (auto simp add: bounded_step)

text \<open>
  Claim C1. Whatever calls, animation frames and timer firings the controller has
  gone through since its construction, the buffer \<^verbatim>\<open>frameMetrics\<close> holds at most 100
  samples; and a frame that is recorded (controller enabled, scrolling, positive frame
  time) on a buffer within its capacity puts its sample at the end, after dropping the
  head of the buffer, its oldest sample, when the buffer was full.
\<close>

theorem buffer_capacity_fifo:
  "length (frameMetrics (run es perfDiagnostics)) \<le> 100 \<and>
   (enabled s \<and> isScrolling s \<and> lastTime s < t \<and> length (frameMetrics s) \<le> 100 \<longrightarrow>
      frameMetrics (measureFrame t p s) =
        (if length (frameMetrics s) = 100 then tl (frameMetrics s) else frameMetrics s)
          @ [sampleOf s t p])"
proof -
  have "bounded perfDiagnostics"
    by (simp add: bounded_def perfDiagnostics_def)
  then have "bounded (run es perfDiagnostics)"
    by (rule bounded_run)
  then have cap: "length (frameMetrics (run es perfDiagnostics)) \<le> 100"
    by (simp add: bounded_def)
  have fifo: "frameMetrics (measureFrame t p s) =
        (if length (frameMetrics s) = 100 then tl (frameMetrics s) else frameMetrics s)
          @ [sampleOf s t p]"
    if h: "enabled s" "isScrolling s" "lastTime s < t" "length (frameMetrics s) \<le> 100"
  proof (cases "length (frameMetrics s) = 100")
    case True
    then have "frameMetrics s \<noteq> []" by auto
    then show ?thesis using h True by (simp add: frameMetrics_measureFrame)
  next
    case False
    then show ?thesis using h by (simp add: frameMetrics_measureFrame)
  qed
  show ?thesis using cap fifo by blast
qed

theorem buffer_capacity_fifo_witness:
  "length (frameMetrics
       (run [Enable 0 desktop, OnScrollStart, AnimationFrame 16 0] perfDiagnostics)) \<le> 100 \<and>
   frameMetrics (measureFrame 16 7
       (perfDiagnostics\<lparr>enabled := True, isScrolling := True,
          frameMetrics := replicate 100
            \<lparr>timestamp = 0, frameTime = 8, scrollTop = 0, fps = 125\<rparr>\<rparr>)) =
     replicate 99 \<lparr>timestamp = 0, frameTime = 8, scrollTop = 0, fps = 125\<rparr> @
       [\<lparr>timestamp = 16, frameTime = 16, scrollTop = 7, fps = 1000 / 16\<rparr>]"
  using buffer_capacity_fifo [of "[Enable 0 desktop, OnScrollStart, AnimationFrame 16 0]"
      "perfDiagnostics\<lparr>enabled := True, isScrolling := True,
          frameMetrics := replicate 100
            \<lparr>timestamp = 0, frameTime = 8, scrollTop = 0, fps = 125\<rparr>\<rparr>" 16 7]
  by (simp add: perfDiagnostics_def sampleOf_def)

lemma console_measureFrame:
  "console (measureFrame t p s) = console s @
     (if enabled s then
        (if windowCloses s t \<and> isScrolling s
         then LogScrollFps (frameCountInSecond s + 1) (t - lastTime s) #
              (if frameCountInSecond s + 1 < 30
               then [WarnDroppedFrame (frameCountInSecond s + 1)] else [])
         else []) @
        (if isScrolling s \<and> t - lastTime s > 50 then [WarnLongFrame (t - lastTime s)] else [])
      else [])"
  by (simp add: measureFrame_def requestFrame_def secondWindow_def recordFrame_def emit_def
      Let_def windowCloses_def)

lemma droppedFrames_measureFrame:
  "droppedFrames (measureFrame t p s) =
     (if enabled s \<and> windowCloses s t \<and> isScrolling s \<and> frameCountInSecond s + 1 < 30
      then droppedFrames s + 1 else droppedFrames s)"
  by (simp add: measureFrame_def requestFrame_def secondWindow_def recordFrame_def emit_def
      Let_def windowCloses_def)

lemma window_measureFrame:
  "enabled s \<Longrightarrow>
     frameCountInSecond (measureFrame t p s) =
       (if windowCloses s t then 0 else frameCountInSecond s + 1) \<and>
     secondStart (measureFrame t p s) = (if windowCloses s t then t else secondStart s) \<and>
     lastTime (measureFrame t p s) = t \<and>
     frameCount (measureFrame t p s) = frameCount s + 1"
  by (simp add: measureFrame_def requestFrame_def secondWindow_def recordFrame_def emit_def
      Let_def windowCloses_def)

text \<open>
  Claim C4. The frame count of the running window, this frame included, is
  \<open>frameCountInSecond s + 1\<close>; the code takes it as the window's FPS when the frame
  closes the window (at least 1000 ms after the window's start). A frame that closes a
  window with an FPS below 30 while \<^verbatim>\<open>isScrolling\<close> is set adds exactly 1 to
  \<^verbatim>\<open>droppedFrames\<close> and writes exactly one dropped-frame warning, carrying that FPS. Any
  other frame of the enabled sampler (the window does not close, or its FPS is at least
  30, or scrolling is inactive) leaves the counter as it is and warns of no drop.
\<close>

theorem dropped_frame_rule:
  "enabled s \<longrightarrow>
     droppedFrames (measureFrame t p s) =
       droppedFrames s +
         (if windowCloses s t \<and> isScrolling s \<and> frameCountInSecond s + 1 < 30 then 1 else 0) \<and>
     droppedWarnings (newOutput s (measureFrame t p s)) =
       (if windowCloses s t \<and> isScrolling s \<and> frameCountInSecond s + 1 < 30 then 1 else 0) \<and>
     (windowCloses s t \<and> isScrolling s \<and> frameCountInSecond s + 1 < 30 \<longrightarrow>
        WarnDroppedFrame (frameCountInSecond s + 1) \<in> set (newOutput s (measureFrame t p s)))"
  by (simp add: droppedFrames_measureFrame console_measureFrame newOutput_def)

text \<open>The 25th frame of a window closes it at 1004 ms, 40 ms after the 24th.\<close>

theorem dropped_frame_rule_witness:
  "enabled (perfDiagnostics\<lparr>enabled := True, isScrolling := True,
              frameCountInSecond := 24, lastTime := 964\<rparr>) \<and>
   droppedFrames (measureFrame 1004 0
      (perfDiagnostics\<lparr>enabled := True, isScrolling := True,
         frameCountInSecond := 24, lastTime := 964\<rparr>)) = 1 \<and>
   newOutput
      (perfDiagnostics\<lparr>enabled := True, isScrolling := True,
         frameCountInSecond := 24, lastTime := 964\<rparr>)
      (measureFrame 1004 0
         (perfDiagnostics\<lparr>enabled := True, isScrolling := True,
            frameCountInSecond := 24, lastTime := 964\<rparr>)) =
     [LogScrollFps 25 40, WarnDroppedFrame 25]"
  using dropped_frame_rule [of "perfDiagnostics\<lparr>enabled := True, isScrolling := True,
         frameCountInSecond := 24, lastTime := 964\<rparr>" 1004 0]
  by (simp add: perfDiagnostics_def windowCloses_def newOutput_def console_measureFrame)

text \<open>
  Claim C5. A frame of the enabled sampler appends its sample (and then drops the head
  of a buffer grown beyond 100) exactly when \<^verbatim>\<open>isScrolling\<close> is set and the frame time
  is positive; otherwise the buffer is left as it is. In every case, and so for a zero
  or negative frame time, \<^verbatim>\<open>frameCount\<close> grows by 1, the frame is counted in the running
  window, the window is closed and restarted when it is due, and \<^verbatim>\<open>lastTime\<close> is moved
  to the frame.
\<close>

theorem sample_recorded_iff:
  "enabled s \<longrightarrow>
     frameMetrics (measureFrame t p s) =
       (if isScrolling s \<and> 0 < t - lastTime s
        then (let b = frameMetrics s @ [sampleOf s t p] in if length b > 100 then tl b else b)
        else frameMetrics s) \<and>
     frameCount (measureFrame t p s) = frameCount s + 1 \<and>
     frameCountInSecond (measureFrame t p s) =
       (if windowCloses s t then 0 else frameCountInSecond s + 1) \<and>
     secondStart (measureFrame t p s) = (if windowCloses s t then t else secondStart s) \<and>
     lastTime (measureFrame t p s) = t"
  by (auto simp add: frameMetrics_measureFrame window_measureFrame Let_def)

text \<open>A frame stamped 10 ms before the previous one, while scrolling.\<close>

theorem sample_recorded_iff_witness:
  "enabled (perfDiagnostics\<lparr>enabled := True, isScrolling := True, lastTime := 20\<rparr>) \<and>
   frameMetrics (measureFrame 10 0
      (perfDiagnostics\<lparr>enabled := True, isScrolling := True, lastTime := 20\<rparr>)) = [] \<and>
   frameCount (measureFrame 10 0
      (perfDiagnostics\<lparr>enabled := True, isScrolling := True, lastTime := 20\<rparr>)) = 1 \<and>
   frameCountInSecond (measureFrame 10 0
      (perfDiagnostics\<lparr>enabled := True, isScrolling := True, lastTime := 20\<rparr>)) = 1 \<and>
   lastTime (measureFrame 10 0
      (perfDiagnostics\<lparr>enabled := True, isScrolling := True, lastTime := 20\<rparr>)) = 10"
  using sample_recorded_iff
    [of "perfDiagnostics\<lparr>enabled := True, isScrolling := True, lastTime := 20\<rparr>" 10 0]
  by (simp add: perfDiagnostics_def windowCloses_def)

section \<open>Reports\<close>

lemma unguarded_aggregates:
  "js_div (reduce_sum (map fps [])) (real (length (map fps []))) = NaN \<and>
   Math_min (map fps []) = PosInf \<and> Math_max (map fps []) = NegInf"
  by (simp add: js_div_def reduce_sum_def Math_min_def Math_max_def)




text \<open>
  Claim C9, as stated, fails for the report on demand: on the freshly constructed
  controller, whose buffer is empty, a call of \<^verbatim>\<open>generateReport\<close> hands a report back.
\<close>

theorem generateReport_empty_still_reports:
  "frameMetrics perfDiagnostics = [] \<and>
   returnedReports
     (newOutput perfDiagnostics (step (GenerateReport desktop) perfDiagnostics)) = 1"
  by (simp add: perfDiagnostics_def newOutput_def emit_def)

text \<open>
  Claim C9, amended. With an empty buffer the end-of-gesture report is skipped in
  silence: \<^verbatim>\<open>printScrollReport\<close> returns at once, leaving the controller as it was, so
  the timer's callback writes its end-of-scroll line and no report. A call of
  \<^verbatim>\<open>generateReport\<close> does return a report even then; its aggregates over the buffer
  are 0.
\<close>

theorem empty_buffer_reports:
  "frameMetrics s = [] \<longrightarrow>
     printScrollReport s = s \<and>
     newOutput s (scrollEndTimeout s) = [LogScrollEnd] \<and>
     newOutput s (step (GenerateReport w) s) = [Returned (generateReport w s)] \<and>
     r_avgFps (generateReport w s) = Fin 0 \<and>
     r_minFps (generateReport w s) = Fin 0 \<and>
     r_maxFps (generateReport w s) = Fin 0 \<and>
     r_avgFrameTime (generateReport w s) = Fin 0 \<and>
     r_maxFrameTime (generateReport w s) = Fin 0"
  by (simp add: printScrollReport_def scrollEndTimeout_def newOutput_def emit_def
      generateReport_def)

theorem empty_buffer_reports_witness:
  "frameMetrics perfDiagnostics = [] \<and>
   printScrollReport perfDiagnostics = perfDiagnostics \<and>
   newOutput perfDiagnostics (scrollEndTimeout perfDiagnostics) = [LogScrollEnd] \<and>
   returnedReports
     (newOutput perfDiagnostics (step (GenerateReport desktop) perfDiagnostics)) = 1"
  using empty_buffer_reports [of perfDiagnostics desktop]
  by (simp add: perfDiagnostics_def)

section \<open>The end-of-scroll debounce\<close>

lemma scrollEnds_append [simp]: "scrollEnds (xs @ ys) = scrollEnds xs + scrollEnds ys"
  by (induction xs rule: scrollEnds.induct) auto

lemma scrollReports_append [simp]: "scrollReports (xs @ ys) = scrollReports xs + scrollReports ys"
  by (induction xs rule: scrollReports.induct) auto

lemma run_append: "run (xs @ ys) s = run ys (run xs s)"
  by (simp add: run_def)

lemma run_Cons: "run (e # es) s = run es (step e s)"
  by (simp add: run_def)

lemma run_Nil: "run [] s = s"
  by (simp add: run_def)

lemma same_debounce_refl: "same_debounce s s"
  by (simp add: same_debounce_def)

lemma same_debounce_trans: "same_debounce s s' \<Longrightarrow> same_debounce s' s'' \<Longrightarrow> same_debounce s s''"
  by (simp add: same_debounce_def)

lemma same_debounce_measureFrame: "same_debounce s (measureFrame t p s)"
  by (simp add: same_debounce_def console_measureFrame)
     (simp add: measureFrame_def requestFrame_def secondWindow_def recordFrame_def emit_def Let_def)

lemma same_debounce_animationFrame: "same_debounce s (animationFrame t p s)"
proof -
  have "same_debounce s (s\<lparr>rafs := []\<rparr>)" by (simp add: same_debounce_def)
  then show ?thesis
    unfolding animationFrame_def
    by (rule fold_const_inv [where P = "same_debounce s", rotated])
       (erule same_debounce_trans, rule same_debounce_measureFrame)
qed

lemma same_debounce_quiet: "quiet e \<Longrightarrow> same_debounce s (step e s)"
  by (cases e) (simp_all add: same_debounce_animationFrame,
      simp_all add: same_debounce_def updateGridInfo_def emit_def Let_def)

lemma same_debounce_run: "list_all quiet es \<Longrightarrow> same_debounce s (run es s)"
proof (induction es arbitrary: s)
  case Nil
  then show ?case by (simp add: run_Nil same_debounce_refl)
next
  case (Cons e es)
  then have "same_debounce s (step e s)" "same_debounce (step e s) (run es (step e s))"
    by (simp_all add: same_debounce_quiet)
  then show ?case by (simp add: run_Cons) (erule (1) same_debounce_trans)
qed

lemma timers_ok_cases: "enabled s \<Longrightarrow> timers_ok s \<Longrightarrow> unarmed s \<or> (\<exists>dl. armed dl s)"
  by (auto simp add: timers_ok_def unarmed_def armed_def split: list.splits)

lemma onScrollStart_unarmed:
  assumes "unarmed s \<or> armed dl s"
  shows "unarmed (onScrollStart s) \<and> isScrolling (onScrollStart s) \<and> clock (onScrollStart s) = clock s \<and>
         scrollEnds (console (onScrollStart s)) = scrollEnds (console s) \<and>
         scrollReports (console (onScrollStart s)) = scrollReports (console s)"
  using assms
  by (auto simp add: unarmed_def armed_def onScrollStart_def emit_def Let_def truthy_def clearTimeout_def
      split: option.splits)

lemma onScrollEnd_armed:
  assumes "unarmed s \<or> armed dl s"
  shows "armed (clock s + 200) (onScrollEnd s) \<and> isScrolling (onScrollEnd s) = isScrolling s \<and>
         clock (onScrollEnd s) = clock s \<and>
         scrollEnds (console (onScrollEnd s)) = scrollEnds (console s) \<and>
         scrollReports (console (onScrollEnd s)) = scrollReports (console s)"
  using assms
  by (auto simp add: unarmed_def armed_def onScrollEnd_def emit_def Let_def truthy_def clearTimeout_def
      split: option.splits)

lemma elapse_unarmed:
  assumes "unarmed s"
  shows "unarmed (elapse d s) \<and> isScrolling (elapse d s) = isScrolling s \<and> clock (elapse d s) = clock s + d \<and>
         console (elapse d s) = console s"
  using assms by (simp add: unarmed_def elapse_def Let_def)

lemma elapse_armed_early:
  assumes "armed dl s" "clock s + d < dl"
  shows "armed dl (elapse d s) \<and> isScrolling (elapse d s) = isScrolling s \<and> clock (elapse d s) = clock s + d \<and>
         console (elapse d s) = console s"
  using assms by (auto simp add: armed_def elapse_def Let_def)

lemma elapse_armed_due:
  assumes "armed dl s" "dl \<le> clock s + d"
  shows "elapse d s = scrollEndTimeout (s\<lparr>clock := clock s + d, timers := []\<rparr>)"
  using assms by (auto simp add: armed_def elapse_def Let_def)

lemma scrollEndTimeout_effect:
  "\<not> isScrolling (scrollEndTimeout s) \<and> frameMetrics (scrollEndTimeout s) = [] \<and>
   timers (scrollEndTimeout s) = timers s \<and>
   scrollEnds (console (scrollEndTimeout s)) = scrollEnds (console s) + 1 \<and>
   scrollReports (console (scrollEndTimeout s)) =
     scrollReports (console s) + (if frameMetrics s = [] then 0 else 1)"
  by (simp add: scrollEndTimeout_def printScrollReport_def emit_def Let_def)

lemma quiet_unarmed:
  assumes "list_all quiet fs" "unarmed s"
  shows "unarmed (run fs s)"
  using same_debounce_run [OF assms(1), of s] assms(2)
  by (auto simp add: same_debounce_def unarmed_def)

lemma quiet_armed:
  assumes "list_all quiet fs" "armed dl s"
  shows "armed dl (run fs s)"
  using same_debounce_run [OF assms(1), of s] assms(2)
  by (auto simp add: same_debounce_def armed_def)

text \<open>The timer invariant holds in every state the controller can reach.\<close>

lemma timers_ok_same: "same_debounce s s' \<Longrightarrow> timers_ok s \<Longrightarrow> timers_ok s'"
  by (auto simp add: same_debounce_def timers_ok_def split: list.splits)

lemma scrollEndTimeout_timers:
  "timers (scrollEndTimeout s) = timers s \<and> scrollTimeout (scrollEndTimeout s) = scrollTimeout s \<and>
   nextHandle (scrollEndTimeout s) = nextHandle s"
  by (simp add: scrollEndTimeout_def printScrollReport_def emit_def Let_def)

lemma timers_ok_elapse:
  assumes "timers_ok s"
  shows "timers_ok (elapse d s)"
proof (cases "timers s")
  case Nil
  then show ?thesis using assms by (simp add: elapse_def Let_def timers_ok_def)
next
  case (Cons x rest)
  obtain h dl where x: "x = (h, dl)" by (cases x)
  from assms Cons x have t: "timers s = [(h, dl)]" "scrollTimeout s = Some h" "0 < h" "0 < nextHandle s"
    by (simp_all add: timers_ok_def)
  show ?thesis
  proof (cases "dl \<le> clock s + d")
    case True
    then show ?thesis using t
      by (simp add: elapse_def Let_def timers_ok_def scrollEndTimeout_timers)
  next
    case False
    then show ?thesis using t by (simp add: elapse_def Let_def timers_ok_def)
  qed
qed

lemma timers_ok_step:
  assumes "timers_ok s"
  shows "timers_ok (step e s)"
proof (cases e)
  case (AnimationFrame t p)
  then show ?thesis using timers_ok_same [OF same_debounce_animationFrame assms] by simp
next
  case (Elapse d)
  then show ?thesis using timers_ok_elapse [OF assms] by simp
qed (use assms in \<open>auto simp add: timers_ok_def enable_def disable_def onScrollStart_def
      onScrollEnd_def updateGridInfo_def emit_def startFrameMonitoring_def requestFrame_def
      logSystemInfo_def clearTimeout_def cancelAnimationFrame_def truthy_def Let_def
      split: option.splits list.splits\<close>)

lemma timers_ok_run: "timers_ok s \<Longrightarrow> timers_ok (run es s)"
  unfolding run_def by (induction es arbitrary: s) (auto simp add: timers_ok_step)

lemma timers_ok_reachable: "timers_ok (run es perfDiagnostics)"
  by (rule timers_ok_run) (simp add: timers_ok_def perfDiagnostics_def)

text \<open>Rapid calls keep one timer at most and let no callback run.\<close>

lemma step_quiet_track:
  assumes "quiet e" "track r s"
  shows "track r (step e s) \<and> scrollEnds (console (step e s)) = scrollEnds (console s) \<and>
         scrollReports (console (step e s)) = scrollReports (console s) \<and>
         isScrolling (step e s) = isScrolling s"
  using same_debounce_quiet [OF assms(1), of s] assms(2)
  by (auto simp add: same_debounce_def track_def unarmed_def armed_def split: option.splits)

lemma track_cases: "track r s \<Longrightarrow> unarmed s \<or> (\<exists>dl. armed dl s)"
  by (auto simp add: track_def split: option.splits)

lemma track_start:
  assumes "track r s"
  shows "track None (onScrollStart s) \<and> isScrolling (onScrollStart s) \<and>
         scrollEnds (console (onScrollStart s)) = scrollEnds (console s) \<and>
         scrollReports (console (onScrollStart s)) = scrollReports (console s)"
proof -
  from track_cases [OF assms] obtain dl where "unarmed s \<or> armed dl s" by blast
  from onScrollStart_unarmed [OF this] show ?thesis by (simp add: track_def)
qed

lemma track_end:
  assumes "track r s"
  shows "track (Some 0) (onScrollEnd s) \<and> isScrolling (onScrollEnd s) = isScrolling s \<and>
         scrollEnds (console (onScrollEnd s)) = scrollEnds (console s) \<and>
         scrollReports (console (onScrollEnd s)) = scrollReports (console s)"
proof -
  from track_cases [OF assms] obtain dl where "unarmed s \<or> armed dl s" by blast
  from onScrollEnd_armed [OF this] show ?thesis by (simp add: track_def)
qed

lemma track_elapse_none:
  assumes "track None s"
  shows "track None (elapse d s) \<and> isScrolling (elapse d s) = isScrolling s \<and>
         console (elapse d s) = console s"
  using elapse_unarmed [of s d] assms by (simp add: track_def)

lemma track_elapse_some:
  assumes "track (Some t) s" "t + d < 200"
  shows "track (Some (t + d)) (elapse d s) \<and> isScrolling (elapse d s) = isScrolling s \<and>
         console (elapse d s) = console s"
proof -
  from assms have a: "armed (clock s + 200 - t) s" and t: "t \<le> clock s"
    by (simp_all add: track_def)
  have "clock s + d < clock s + 200 - t" using t assms(2) by simp
  from elapse_armed_early [OF a this] t show ?thesis by (simp add: track_def)
qed

lemma rapid_run:
  assumes "rapid r es" "track r s"
  shows "track (sinceEnd r es) (run es s) \<and>
         scrollEnds (console (run es s)) = scrollEnds (console s) \<and>
         scrollReports (console (run es s)) = scrollReports (console s) \<and>
         (isScrolling s \<or> OnScrollStart \<in> set es \<longrightarrow> isScrolling (run es s))"
  using assms
proof (induction r es arbitrary: s rule: rapid.induct)
  case (1 r)
  then show ?case by (simp add: run_Nil)
next
  case (2 r es)
  from track_start [OF 2(3)] 2(1) [of "onScrollStart s"] 2(2)
  show ?case by (simp add: run_Cons)
next
  case (3 r es)
  from track_end [OF 3(3)] 3(1) [of "onScrollEnd s"] 3(2)
  show ?case by (auto simp add: run_Cons)
next
  case (4 r d es)
  show ?case
  proof (cases r)
    case None
    with 4(4) have tr: "track None s" by simp
    from track_elapse_none [OF tr, of d] 4(1) [OF None, of "elapse d s"] 4(3) None
    show ?thesis by (auto simp add: run_Cons)
  next
    case (Some t)
    with 4(3,4) have tr: "track (Some t) s" and lt: "t + d < 200" and rest: "rapid (Some (t + d)) es"
      by simp_all
    from track_elapse_some [OF tr lt] 4(2) [OF Some rest, of "elapse d s"] Some
    show ?thesis by (auto simp add: run_Cons)
  qed
next
  case (5 r t p es)
  from step_quiet_track [of "AnimationFrame t p" r s] 5
  show ?case by (auto simp add: run_Cons)
next
  case (6 r a b es)
  from step_quiet_track [of "UpdateGridInfo a b" r s] 6
  show ?case by (auto simp add: run_Cons)
next
  case (7 r w es)
  from step_quiet_track [of "GenerateReport w" r s] 7
  show ?case by (auto simp add: run_Cons)
next
  case (8 r t w es)
  then show ?case by simp
next
  case (9 r es)
  then show ?case by simp
qed

lemma track_fire:
  assumes "track (Some t) s" "200 \<le> t + d"
  shows "elapse d s = scrollEndTimeout (s\<lparr>clock := clock s + d, timers := []\<rparr>)"
proof -
  from assms have a: "armed (clock s + 200 - t) s" and t: "t \<le> clock s"
    by (simp_all add: track_def)
  have "clock s + 200 - t \<le> clock s + d" using t assms(2) by simp
  from elapse_armed_due [OF a this] show ?thesis .
qed

lemma onScrollEnd_timers:
  assumes "enabled s" "timers_ok s"
  shows "timers (onScrollEnd s) = [(nextHandle s, clock s + 200)]"
    and "scrollTimeout (onScrollEnd s) = Some (nextHandle s)"
  using assms
  by (auto simp add: timers_ok_def onScrollEnd_def Let_def truthy_def clearTimeout_def
      split: option.splits list.splits)

lemma onScrollStart_timers:
  assumes "enabled s" "timers_ok s"
  shows "timers (onScrollStart s) = []"
  using assms
  by (auto simp add: timers_ok_def onScrollStart_def Let_def truthy_def clearTimeout_def emit_def
      split: option.splits list.splits)

lemmas diag_defs = perfDiagnostics_def desktop_def enable_def logSystemInfo_def
  startFrameMonitoring_def requestFrame_def emit_def onScrollStart_def onScrollEnd_def
  truthy_def clearTimeout_def elapse_def scrollEndTimeout_def printScrollReport_def
  animationFrame_def measureFrame_def secondWindow_def recordFrame_def twoGestures_def
  run_def timers_ok_def Let_def

text \<open>
  Claim C6, as stated, fails when no frame was sampled: enabled, two gestures 50 ms
  apart and then 200 ms of rest, with an empty buffer throughout, end with no report
  at all.
\<close>

theorem two_gestures_no_report:
  "scrollReports (console (run (twoGestures [] 10 [] 50 [] 10 [] @ [Elapse 200])
      (enable 0 desktop perfDiagnostics))) = 0"
  by (simp add: diag_defs)

text \<open>
  Claim C6, amended. On an enabled controller \<^verbatim>\<open>onScrollEnd\<close> leaves exactly one timer
  pending, the one it sets for 200 ms later: a timer pending before is cancelled; and
  \<^verbatim>\<open>onScrollStart\<close> leaves none. So a rapid succession of calls that begins with either
  of them and ends \<open>t\<close> ms after an \<^verbatim>\<open>onScrollEnd\<close> (\<^verbatim>\<open>onScrollStart\<close>, \<^verbatim>\<open>onScrollEnd\<close> twice
  over, or \<^verbatim>\<open>onScrollStart\<close> and two \<^verbatim>\<open>onScrollEnd\<close>, each less than 200 ms after the
  last \<^verbatim>\<open>onScrollEnd\<close>; frames, grid updates and report requests may come in between)
  runs the end-of-scroll callback not at all, keeps \<^verbatim>\<open>isScrolling\<close> set once an
  \<^verbatim>\<open>onScrollStart\<close> is among the calls, and ends with one timer pending. When the
  200 ms of that last \<^verbatim>\<open>onScrollEnd\<close> have passed, the callback runs exactly once. It
  clears \<^verbatim>\<open>isScrolling\<close> and the buffer, and it prints exactly one report if the buffer
  holds a sample at that moment, none if the buffer is empty; never two. No timer is
  left.
\<close>

theorem rapid_calls_one_report:
  assumes en: "enabled s" and ok: "timers_ok s"
  shows "timers (onScrollEnd s) = [(nextHandle s, clock s + 200)] \<and>
     timers (onScrollStart s) = [] \<and>
     ((e = OnScrollStart \<or> e = OnScrollEnd) \<and> rapid None (e # es) \<and>
      sinceEnd None (e # es) = Some t \<and> 200 \<le> t + d \<longrightarrow>
        scrollEnds (console (run (e # es) s)) = scrollEnds (console s) \<and>
        scrollReports (console (run (e # es) s)) = scrollReports (console s) \<and>
        (OnScrollStart \<in> set (e # es) \<longrightarrow> isScrolling (run (e # es) s)) \<and>
        length (timers (run (e # es) s)) = 1 \<and>
        scrollEnds (console (run (e # es @ [Elapse d]) s)) = scrollEnds (console s) + 1 \<and>
        scrollReports (console (run (e # es @ [Elapse d]) s)) =
          scrollReports (console s) + (if frameMetrics (run (e # es) s) = [] then 0 else 1) \<and>
        \<not> isScrolling (run (e # es @ [Elapse d]) s) \<and>
        frameMetrics (run (e # es @ [Elapse d]) s) = [] \<and>
        timers (run (e # es @ [Elapse d]) s) = [])"
proof (intro conjI impI)
  show "timers (onScrollEnd s) = [(nextHandle s, clock s + 200)]"
    using onScrollEnd_timers(1) [OF en ok] .
  show "timers (onScrollStart s) = []"
    using onScrollStart_timers [OF en ok] .
next
  assume h: "(e = OnScrollStart \<or> e = OnScrollEnd) \<and> rapid None (e # es) \<and>
      sinceEnd None (e # es) = Some t \<and> 200 \<le> t + d"
  from timers_ok_cases [OF en ok] obtain dl0 where c0: "unarmed s \<or> armed dl0 s" by blast
  define r1 where "r1 = (if e = OnScrollStart then None else Some (0::nat))"
  have first: "track r1 (step e s)"
    "scrollEnds (console (step e s)) = scrollEnds (console s)"
    "scrollReports (console (step e s)) = scrollReports (console s)"
    "e = OnScrollStart \<longrightarrow> isScrolling (step e s)"
    using h onScrollStart_unarmed [OF c0] onScrollEnd_armed [OF c0]
    by (auto simp add: r1_def track_def)
  have rr: "rapid r1 es" "sinceEnd r1 es = Some t"
    using h by (auto simp add: r1_def)
  let ?p = "run (e # es) s"
  from rapid_run [OF rr(1) first(1)] rr(2) first
  have pre: "track (Some t) ?p" "scrollEnds (console ?p) = scrollEnds (console s)"
    "scrollReports (console ?p) = scrollReports (console s)"
    "OnScrollStart \<in> set (e # es) \<longrightarrow> isScrolling ?p"
    by (auto simp add: run_Cons)
  have fin: "run (e # es @ [Elapse d]) s = scrollEndTimeout (?p\<lparr>clock := clock ?p + d, timers := []\<rparr>)"
    using track_fire [OF pre(1), of d] h
    by (simp add: run_append run_Cons run_Nil)
  show "scrollEnds (console ?p) = scrollEnds (console s)" by (rule pre(2))
  show "scrollReports (console ?p) = scrollReports (console s)" by (rule pre(3))
  show "isScrolling ?p" if "OnScrollStart \<in> set (e # es)" using pre(4) that by blast
  show "length (timers ?p) = 1" using pre(1) by (auto simp add: track_def armed_def)
  show "scrollEnds (console (run (e # es @ [Elapse d]) s)) = scrollEnds (console s) + 1"
    unfolding fin using scrollEndTimeout_effect [of "?p\<lparr>clock := clock ?p + d, timers := []\<rparr>"] pre
    by simp
  show "scrollReports (console (run (e # es @ [Elapse d]) s)) =
          scrollReports (console s) + (if frameMetrics ?p = [] then 0 else 1)"
    unfolding fin using scrollEndTimeout_effect [of "?p\<lparr>clock := clock ?p + d, timers := []\<rparr>"] pre
    by simp
  show "\<not> isScrolling (run (e # es @ [Elapse d]) s)"
    unfolding fin using scrollEndTimeout_effect [of "?p\<lparr>clock := clock ?p + d, timers := []\<rparr>"]
    by simp
  show "frameMetrics (run (e # es @ [Elapse d]) s) = []"
    unfolding fin using scrollEndTimeout_effect [of "?p\<lparr>clock := clock ?p + d, timers := []\<rparr>"]
    by simp
  show "timers (run (e # es @ [Elapse d]) s) = []"
    unfolding fin using scrollEndTimeout_effect [of "?p\<lparr>clock := clock ?p + d, timers := []\<rparr>"]
    by simp
qed

theorem rapid_calls_one_report_witness:
  "enabled (enable 0 desktop perfDiagnostics) \<and>
   timers_ok (enable 0 desktop perfDiagnostics) \<and>
   rapid None [OnScrollStart, AnimationFrame 16 0, Elapse 10, OnScrollEnd, Elapse 50,
     OnScrollStart, Elapse 10, OnScrollEnd] \<and>
   sinceEnd None [OnScrollStart, AnimationFrame 16 0, Elapse 10, OnScrollEnd, Elapse 50,
     OnScrollStart, Elapse 10, OnScrollEnd] = Some 0 \<and>
   scrollEnds (console (run
     [OnScrollStart, AnimationFrame 16 0, Elapse 10, OnScrollEnd, Elapse 50,
      OnScrollStart, Elapse 10, OnScrollEnd, Elapse 200]
     (enable 0 desktop perfDiagnostics))) = 1 \<and>
   scrollReports (console (run
     [OnScrollStart, AnimationFrame 16 0, Elapse 10, OnScrollEnd, Elapse 50,
      OnScrollStart, Elapse 10, OnScrollEnd, Elapse 200]
     (enable 0 desktop perfDiagnostics))) = 1 \<and>
   rapid None [OnScrollStart, AnimationFrame 16 0, OnScrollEnd, Elapse 50, OnScrollEnd] \<and>
   sinceEnd None [OnScrollStart, AnimationFrame 16 0, OnScrollEnd, Elapse 50, OnScrollEnd] =
     Some 0 \<and>
   timers (run [OnScrollStart, AnimationFrame 16 0, OnScrollEnd, Elapse 50]
     (enable 0 desktop perfDiagnostics)) = [(3, 200)] \<and>
   timers (run [OnScrollStart, AnimationFrame 16 0, OnScrollEnd, Elapse 50, OnScrollEnd]
     (enable 0 desktop perfDiagnostics)) = [(4, 250)] \<and>
   scrollEnds (console (run
     [OnScrollStart, AnimationFrame 16 0, OnScrollEnd, Elapse 50, OnScrollEnd, Elapse 200]
     (enable 0 desktop perfDiagnostics))) = 1 \<and>
   scrollReports (console (run
     [OnScrollStart, AnimationFrame 16 0, OnScrollEnd, Elapse 50, OnScrollEnd, Elapse 200]
     (enable 0 desktop perfDiagnostics))) = 1"
  using rapid_calls_one_report [of "enable 0 desktop perfDiagnostics" OnScrollStart
      "[AnimationFrame 16 0, Elapse 10, OnScrollEnd, Elapse 50, OnScrollStart, Elapse 10,
        OnScrollEnd]" 0 200]
    rapid_calls_one_report [of "enable 0 desktop perfDiagnostics" OnScrollStart
      "[AnimationFrame 16 0, OnScrollEnd, Elapse 50, OnScrollEnd]" 0 200]
    rapid_calls_one_report [of "run [OnScrollStart, AnimationFrame 16 0, OnScrollEnd, Elapse 50]
      (enable 0 desktop perfDiagnostics)"]
  by (simp add: diag_defs)

section \<open>The reference-counted scroll state\<close>

lemma sig_run_append: "sig_run (xs @ ys) s = sig_run ys (sig_run xs s)"
  by (simp add: sig_run_def)

lemma sig_run_Cons: "sig_run (e # es) s = sig_run es (sig_step e s)"
  by (simp add: sig_run_def)

lemma sig_run_Nil: "sig_run [] s = s"
  by (simp add: sig_run_def)

lemma sig_inv_init: "sig_inv globalScrollState"
  by (simp add: sig_inv_def globalScrollState_def)

lemma handleScrollEvent_pending: "scrollRAF s \<noteq> None \<Longrightarrow> handleScrollEvent s = s"
  by (simp add: handleScrollEvent_def)

lemma handleScrollEvent_fresh:
  assumes "sig_inv s" "scrollRAF s = None"
  shows "sig_timers (handleScrollEvent s) = [(sig_nextHandle s + 1, sig_clock s + 150)]"
    and "sig_rafs (handleScrollEvent s) = [sig_nextHandle s]"
    and "scrollRAF (handleScrollEvent s) = Some (sig_nextHandle s)"
    and "sig_scrollTimeout (handleScrollEvent s) = Some (sig_nextHandle s + 1)"
    and "sig_nextHandle (handleScrollEvent s) = sig_nextHandle s + 2"
    and "listenerCount (handleScrollEvent s) = listenerCount s"
    and "isListenerAttached (handleScrollEvent s) = isListenerAttached s"
    and "windowScroll (handleScrollEvent s) = windowScroll s"
    and "emitterScroll (handleScrollEvent s) = emitterScroll s"
    and "sig_isScrolling (handleScrollEvent s) = sig_isScrolling s"
    and "sig_clock (handleScrollEvent s) = sig_clock s"
  using assms
  by (auto simp add: sig_inv_def handleScrollEvent_def Let_def truthy_def sig_clearTimeout_def
      split: option.splits list.splits)

lemma sig_inv_handleScrollEvent:
  assumes "sig_inv s" "isListenerAttached s"
  shows "sig_inv (handleScrollEvent s)"
proof (cases "scrollRAF s")
  case None
  show ?thesis
    using handleScrollEvent_fresh [OF assms(1) None] assms
    by (simp add: sig_inv_def)
next
  case (Some h)
  then show ?thesis using assms by (simp add: handleScrollEvent_pending)
qed

lemma sig_inv_add:
  assumes "sig_inv s" "listenerCount s = int n"
  shows "sig_inv (addScrollListener s) \<and> listenerCount (addScrollListener s) = int (Suc n)"
  using assms
  by (auto simp add: sig_inv_def addScrollListener_def Let_def split: list.splits option.splits)

lemma sig_inv_remove:
  assumes "sig_inv s" "listenerCount s = int n" "0 < n"
  shows "sig_inv (removeScrollListener s) \<and> listenerCount (removeScrollListener s) = int (n - 1)"
  using assms
  by (auto simp add: sig_inv_def removeScrollListener_def Let_def truthy_def sig_clearTimeout_def
      sig_cancelAnimationFrame_def split: option.splits list.splits)

lemma sig_inv_frame:
  assumes "sig_inv s"
  shows "sig_inv (sig_step Frame s) \<and> listenerCount (sig_step Frame s) = listenerCount s"
  using assms
  by (auto simp add: sig_inv_def scrollFrameCallback_def split: option.splits list.splits)

lemma sig_inv_wait:
  assumes "sig_inv s"
  shows "sig_inv (sig_step (Wait d) s) \<and> listenerCount (sig_step (Wait d) s) = listenerCount s"
  using assms
  by (auto simp add: sig_inv_def scrollIdleCallback_def Let_def split: option.splits list.splits)

lemma sig_inv_native:
  assumes "sig_inv s"
  shows "sig_inv (sig_step NativeScroll s) \<and> listenerCount (sig_step NativeScroll s) = listenerCount s"
proof (cases "windowScroll s")
  case True
  then have a: "isListenerAttached s" using assms by (auto simp add: sig_inv_def)
  have "listenerCount (handleScrollEvent s) = listenerCount s"
    by (cases "scrollRAF s") (simp_all add: handleScrollEvent_fresh(6) [OF assms] handleScrollEvent_pending)
  then show ?thesis using True sig_inv_handleScrollEvent [OF assms a] by simp
next
  case False
  then show ?thesis using assms by simp
qed

lemma sig_inv_overlay:
  assumes "sig_inv s"
  shows "sig_inv (sig_step OverlayScroll s) \<and> listenerCount (sig_step OverlayScroll s) = listenerCount s"
proof (cases "isListenerAttached s")
  case True
  then have e: "emitterScroll s = 1" using assms by (simp add: sig_inv_def)
  have "listenerCount (handleScrollEvent s) = listenerCount s"
    by (cases "scrollRAF s") (simp_all add: handleScrollEvent_fresh(6) [OF assms] handleScrollEvent_pending)
  then show ?thesis using e sig_inv_handleScrollEvent [OF assms True] by simp
next
  case False
  then have "emitterScroll s = 0" using assms by (simp add: sig_inv_def)
  then show ?thesis using assms by simp
qed

lemma sig_inv_run:
  assumes "balanced n es" "sig_inv s" "listenerCount s = int n"
  shows "sig_inv (sig_run es s) \<and> listenerCount (sig_run es s) = int (subscribers n es)"
  using assms
proof (induction n es arbitrary: s rule: balanced.induct)
  case (1 n)
  then show ?case by (simp add: sig_run_Nil)
next
  case (2 n es)
  with sig_inv_add [of s n] show ?case by (simp add: sig_run_Cons)
next
  case (3 n es)
  with sig_inv_remove [of s n] show ?case by (simp add: sig_run_Cons)
next
  case (4 n es)
  with sig_inv_native [of s] show ?case by (simp add: sig_run_Cons)
next
  case (5 n es)
  with sig_inv_overlay [of s] show ?case by (simp add: sig_run_Cons)
next
  case (6 n es)
  with sig_inv_frame [of s] show ?case by (simp add: sig_run_Cons)
next
  case (7 n d es)
  with sig_inv_wait [of s d] show ?case by (simp add: sig_run_Cons)
qed

lemma balanced_append:
  "balanced n (xs @ ys) \<longleftrightarrow> balanced n xs \<and> balanced (subscribers n xs) ys"
  by (induction n xs rule: balanced.induct) auto

lemma subscribers_append:
  "subscribers n (xs @ ys) = subscribers (subscribers n xs) ys"
  by (induction n xs rule: subscribers.induct) auto

lemma balanced_adds: "balanced n (replicate k AddScrollListener)"
  by (induction k arbitrary: n) auto

lemma subscribers_adds: "subscribers n (replicate k AddScrollListener) = n + k"
  by (induction k arbitrary: n) auto

lemma balanced_ambient: "list_all ambient es \<Longrightarrow> balanced n es"
  by (induction n es rule: balanced.induct) auto

lemma subscribers_ambient: "list_all ambient es \<Longrightarrow> subscribers n es = n"
  by (induction n es rule: subscribers.induct) auto

lemma balanced_removes: "k \<le> n \<Longrightarrow> balanced n (replicate k RemoveScrollListener)"
  by (induction k arbitrary: n) auto

lemma subscribers_removes: "subscribers n (replicate k RemoveScrollListener) = n - k"
  by (induction k arbitrary: n) auto

lemma session_balanced:
  assumes "list_all ambient mid" "k \<le> N"
  shows "balanced 0 (session N mid k)"
    and "subscribers 0 (session N mid k) = N - k"
  using assms
  by (simp_all add: session_def balanced_append subscribers_append balanced_adds
      subscribers_adds balanced_ambient subscribers_ambient balanced_removes
      subscribers_removes)

lemmas sig_defs = globalScrollState_def sig_run_def addScrollListener_def removeScrollListener_def
  handleScrollEvent_def scrollFrameCallback_def scrollIdleCallback_def truthy_def
  sig_clearTimeout_def sig_cancelAnimationFrame_def Let_def

text \<open>
  Claim C2. From the module's initial state, under balanced use and whatever scroll
  events, frames and delays come in between, the listeners are attached exactly while
  the reference count is positive, and the count is the number of subscribers left.
  After \<open>N\<close> subscribes and then \<open>N\<close> unsubscribes neither source holds the handler, no
  timer and no frame request is pending, and the count is 0; after only \<open>N - 1\<close> of the
  unsubscribes (\<open>N\<close> positive) the handler is still registered once on each source.
\<close>

theorem reference_count:
  "(balanced 0 es \<longrightarrow>
      sig_inv (sig_run es globalScrollState) \<and>
      listenerCount (sig_run es globalScrollState) = int (subscribers 0 es) \<and>
      (isListenerAttached (sig_run es globalScrollState) \<longleftrightarrow>
         0 < listenerCount (sig_run es globalScrollState))) \<and>
   (list_all ambient mid \<longrightarrow>
      \<not> isListenerAttached (sig_run (session N mid N) globalScrollState) \<and>
      \<not> windowScroll (sig_run (session N mid N) globalScrollState) \<and>
      emitterScroll (sig_run (session N mid N) globalScrollState) = 0 \<and>
      sig_timers (sig_run (session N mid N) globalScrollState) = [] \<and>
      sig_rafs (sig_run (session N mid N) globalScrollState) = [] \<and>
      listenerCount (sig_run (session N mid N) globalScrollState) = 0) \<and>
   (list_all ambient mid \<and> 0 < N \<longrightarrow>
      isListenerAttached (sig_run (session N mid (N - 1)) globalScrollState) \<and>
      windowScroll (sig_run (session N mid (N - 1)) globalScrollState) \<and>
      emitterScroll (sig_run (session N mid (N - 1)) globalScrollState) = 1)"
proof (intro conjI impI)
  assume "balanced 0 es"
  from sig_inv_run [OF this sig_inv_init]
  have a: "sig_inv (sig_run es globalScrollState)"
    "listenerCount (sig_run es globalScrollState) = int (subscribers 0 es)"
    by (simp_all add: globalScrollState_def)
  show "sig_inv (sig_run es globalScrollState)" by (rule a(1))
  show "listenerCount (sig_run es globalScrollState) = int (subscribers 0 es)" by (rule a(2))
  show "isListenerAttached (sig_run es globalScrollState) \<longleftrightarrow> 0 < listenerCount (sig_run es globalScrollState)"
    using a(1) by (simp add: sig_inv_def)
next
  assume m: "list_all ambient mid"
  let ?s = "sig_run (session N mid N) globalScrollState"
  from sig_inv_run [OF session_balanced(1) [OF m, of N N] sig_inv_init] session_balanced(2) [OF m, of N N]
  have "sig_inv ?s" "listenerCount ?s = 0"
    by (simp_all add: globalScrollState_def)
  then show "\<not> isListenerAttached ?s" "\<not> windowScroll ?s" "emitterScroll ?s = 0"
    "sig_timers ?s = []" "sig_rafs ?s = []" "listenerCount ?s = 0"
    by (auto simp add: sig_inv_def)
next
  assume m: "list_all ambient mid \<and> 0 < N"
  let ?s = "sig_run (session N mid (N - 1)) globalScrollState"
  from m have m1: "list_all ambient mid" and n: "0 < N" by simp_all
  from sig_inv_run [OF session_balanced(1) [OF m1, of "N - 1" N] sig_inv_init] session_balanced(2) [OF m1, of "N - 1" N] n
  have "sig_inv ?s" "listenerCount ?s = 1"
    by (simp_all add: globalScrollState_def)
  then show "isListenerAttached ?s" "windowScroll ?s" "emitterScroll ?s = 1"
    by (auto simp add: sig_inv_def)
qed


theorem reference_count_witness:
  "balanced 0 [AddScrollListener, NativeScroll, RemoveScrollListener] \<and>
   list_all ambient [NativeScroll, Wait 5] \<and> (0::nat) < 2 \<and>
   sig_timers (sig_run (session 2 [NativeScroll, Wait 5] 0) globalScrollState) = [(2, 150)] \<and>
   sig_rafs (sig_run (session 2 [NativeScroll, Wait 5] 0) globalScrollState) = [1] \<and>
   \<not> isListenerAttached (sig_run (session 2 [NativeScroll, Wait 5] 2) globalScrollState) \<and>
   sig_timers (sig_run (session 2 [NativeScroll, Wait 5] 2) globalScrollState) = [] \<and>
   sig_rafs (sig_run (session 2 [NativeScroll, Wait 5] 2) globalScrollState) = [] \<and>
   isListenerAttached (sig_run (session 2 [NativeScroll, Wait 5] (2 - 1)) globalScrollState)"
  using reference_count [of "[AddScrollListener, NativeScroll, RemoveScrollListener]" "[NativeScroll, Wait 5]" 2]
  by (simp add: sig_defs session_def numeral_2_eq_2)

lemma sig_step_scroll:
  assumes "sig_inv s" "isListenerAttached s"
  shows "sig_step NativeScroll s = handleScrollEvent s" "sig_step OverlayScroll s = handleScrollEvent s"
  using assms by (auto simp add: sig_inv_def)

lemma sig_inv_step_rafs:
  assumes "sig_inv s"
  shows "length (sig_rafs (sig_step e s)) \<le> 1"
proof (cases e)
  case AddScrollListener
  then show ?thesis using assms by (auto simp add: sig_inv_def addScrollListener_def Let_def split: option.splits)
next
  case RemoveScrollListener
  then show ?thesis using assms
    by (auto simp add: sig_inv_def removeScrollListener_def Let_def truthy_def sig_clearTimeout_def
      sig_cancelAnimationFrame_def split: option.splits)
next
  case NativeScroll
  with sig_inv_native [OF assms] show ?thesis by (auto simp add: sig_inv_def split: option.splits)
next
  case OverlayScroll
  with sig_inv_overlay [OF assms] show ?thesis by (auto simp add: sig_inv_def split: option.splits)
next
  case Frame
  with sig_inv_frame [OF assms] show ?thesis by (auto simp add: sig_inv_def split: option.splits)
next
  case (Wait d)
  with sig_inv_wait [OF assms] show ?thesis by (auto simp add: sig_inv_def split: option.splits)
qed

text \<open>
  Claim C3, as stated, fails for an event that arrives while a frame request is
  pending. A window scroll event at 0 ms sets the idle timer for 150 ms; the
  scrollbar library's event at 5 ms, with the listeners attached, leaves the timer at
  150 ms instead of moving it to 155 ms; the frame at 16 ms sets the boolean, and at
  150 ms it is false again, 145 ms after the last event.
\<close>

theorem pending_frame_swallows_event:
  "isListenerAttached (sig_run [AddScrollListener, NativeScroll, Wait 5] globalScrollState) \<and>
   sig_clock (sig_run [AddScrollListener, NativeScroll, Wait 5] globalScrollState) = 5 \<and>
   sig_timers (sig_run [AddScrollListener, NativeScroll, Wait 5, OverlayScroll] globalScrollState) = [(2, 150)] \<and>
   sig_isScrolling (sig_run [AddScrollListener, NativeScroll, Wait 5, OverlayScroll, Wait 11, Frame] globalScrollState) \<and>
   sig_clock (sig_run [AddScrollListener, NativeScroll, Wait 5, OverlayScroll, Wait 11, Frame, Wait 134] globalScrollState) = 150 \<and>
   \<not> sig_isScrolling (sig_run [AddScrollListener, NativeScroll, Wait 5, OverlayScroll, Wait 11, Frame, Wait 134] globalScrollState)"
  by (simp add: sig_defs)

text \<open>
  Claim C3, amended. While the listeners are attached, an event of either source runs
  \<^verbatim>\<open>handleScrollEvent\<close>. If no frame request is pending, it requests one frame, whose
  callback sets the boolean, and replaces the idle timer by one due 150 ms later; the
  boolean itself is not changed yet. If a frame request is pending, the event changes
  nothing: no second request, and the timer is not reset. So at most one frame request
  is pending after any step. The boolean becomes false when the idle timer expires,
  150 ms after the last event that was not swallowed, and not before.
\<close>

theorem scroll_event_throttle:
  "sig_inv s \<and> isListenerAttached s \<longrightarrow>
     sig_step NativeScroll s = handleScrollEvent s \<and>
     sig_step OverlayScroll s = handleScrollEvent s \<and>
     (scrollRAF s = None \<longrightarrow>
        sig_rafs (handleScrollEvent s) = [sig_nextHandle s] \<and>
        scrollRAF (handleScrollEvent s) = Some (sig_nextHandle s) \<and>
        sig_timers (handleScrollEvent s) = [(sig_nextHandle s + 1, sig_clock s + 150)] \<and>
        sig_isScrolling (handleScrollEvent s) = sig_isScrolling s) \<and>
     (scrollRAF s \<noteq> None \<longrightarrow> handleScrollEvent s = s) \<and>
     length (sig_rafs (sig_step e s)) \<le> 1 \<and>
     (sig_isScrolling (sig_step Frame s) \<longleftrightarrow> sig_isScrolling s \<or> scrollRAF s \<noteq> None) \<and>
     (sig_timers s = [(h, dl)] \<and> dl \<le> sig_clock s + d \<longrightarrow>
        \<not> sig_isScrolling (sig_step (Wait d) s) \<and> sig_timers (sig_step (Wait d) s) = []) \<and>
     (sig_timers s = [(h, dl)] \<and> sig_clock s + d < dl \<longrightarrow>
        sig_isScrolling (sig_step (Wait d) s) = sig_isScrolling s \<and>
        sig_timers (sig_step (Wait d) s) = [(h, dl)])"
proof (intro impI)
  assume a: "sig_inv s \<and> isListenerAttached s"
  then have i: "sig_inv s" and l: "isListenerAttached s" by simp_all
  have fr: "sig_isScrolling (sig_step Frame s) \<longleftrightarrow> sig_isScrolling s \<or> scrollRAF s \<noteq> None"
    using i by (auto simp add: sig_inv_def scrollFrameCallback_def split: option.splits)
  have w1: "\<not> sig_isScrolling (sig_step (Wait d) s) \<and> sig_timers (sig_step (Wait d) s) = []"
    if "sig_timers s = [(h, dl)] \<and> dl \<le> sig_clock s + d"
    using that by (simp add: Let_def scrollIdleCallback_def)
  have w2: "sig_isScrolling (sig_step (Wait d) s) = sig_isScrolling s \<and>
        sig_timers (sig_step (Wait d) s) = [(h, dl)]"
    if "sig_timers s = [(h, dl)] \<and> sig_clock s + d < dl"
    using that by (simp add: Let_def)
  show "sig_step NativeScroll s = handleScrollEvent s \<and>
     sig_step OverlayScroll s = handleScrollEvent s \<and>
     (scrollRAF s = None \<longrightarrow>
        sig_rafs (handleScrollEvent s) = [sig_nextHandle s] \<and>
        scrollRAF (handleScrollEvent s) = Some (sig_nextHandle s) \<and>
        sig_timers (handleScrollEvent s) = [(sig_nextHandle s + 1, sig_clock s + 150)] \<and>
        sig_isScrolling (handleScrollEvent s) = sig_isScrolling s) \<and>
     (scrollRAF s \<noteq> None \<longrightarrow> handleScrollEvent s = s) \<and>
     length (sig_rafs (sig_step e s)) \<le> 1 \<and>
     (sig_isScrolling (sig_step Frame s) \<longleftrightarrow> sig_isScrolling s \<or> scrollRAF s \<noteq> None) \<and>
     (sig_timers s = [(h, dl)] \<and> dl \<le> sig_clock s + d \<longrightarrow>
        \<not> sig_isScrolling (sig_step (Wait d) s) \<and> sig_timers (sig_step (Wait d) s) = []) \<and>
     (sig_timers s = [(h, dl)] \<and> sig_clock s + d < dl \<longrightarrow>
        sig_isScrolling (sig_step (Wait d) s) = sig_isScrolling s \<and>
        sig_timers (sig_step (Wait d) s) = [(h, dl)])"
    using sig_step_scroll [OF i l] handleScrollEvent_fresh [OF i] handleScrollEvent_pending [of s]
      sig_inv_step_rafs [OF i, of e] fr w1 w2
    by blast
qed

theorem scroll_event_throttle_witness:
  "sig_inv (sig_run [AddScrollListener] globalScrollState) \<and>
   isListenerAttached (sig_run [AddScrollListener] globalScrollState) \<and>
   scrollRAF (sig_run [AddScrollListener] globalScrollState) = None \<and>
   sig_rafs (sig_step NativeScroll (sig_run [AddScrollListener] globalScrollState)) = [1] \<and>
   sig_timers (sig_step NativeScroll (sig_run [AddScrollListener] globalScrollState)) =
     [(2, 150)] \<and>
   sig_inv (sig_run [AddScrollListener, NativeScroll, Wait 5] globalScrollState) \<and>
   isListenerAttached (sig_run [AddScrollListener, NativeScroll, Wait 5] globalScrollState) \<and>
   scrollRAF (sig_run [AddScrollListener, NativeScroll, Wait 5] globalScrollState) = Some 1 \<and>
   sig_timers (sig_run [AddScrollListener, NativeScroll, Wait 5] globalScrollState) =
     [(2, 150)] \<and>
   sig_step OverlayScroll (sig_run [AddScrollListener, NativeScroll, Wait 5] globalScrollState) =
     sig_run [AddScrollListener, NativeScroll, Wait 5] globalScrollState \<and>
   sig_isScrolling
     (sig_step Frame (sig_run [AddScrollListener, NativeScroll, Wait 5] globalScrollState)) \<and>
   \<not> sig_isScrolling
     (sig_step (Wait 145) (sig_run [AddScrollListener, NativeScroll, Wait 5] globalScrollState)) \<and>
   sig_timers
     (sig_step (Wait 144) (sig_run [AddScrollListener, NativeScroll, Wait 5] globalScrollState)) =
     [(2, 150)]"
  using scroll_event_throttle [of "sig_run [AddScrollListener] globalScrollState" NativeScroll]
    scroll_event_throttle [of "sig_run [AddScrollListener, NativeScroll, Wait 5] globalScrollState"
      OverlayScroll 2 150 145]
    scroll_event_throttle [of "sig_run [AddScrollListener, NativeScroll, Wait 5] globalScrollState"
      OverlayScroll 2 150 144]
  by (simp add: sig_defs sig_inv_def)


section \<open>The injected style sheet and the scrolling marker\<close>

text \<open>
  What one injection does for an instance that owns every element with the id of the
  fix: it leaves one such element, with the sheet of its device pixel ratio, or none
  when that sheet is empty.
\<close>

lemma injected_inject:
  assumes "dpr_ok sd"
  shows "injected (snd (injectOptimizationCSS sd)) =
     (if sheetFor (currentDPR (fst sd)) = [] then []
      else [\<lparr>node = nextNode (snd sd), node_id = ''bewly-dpr-perf-fix'',
              textContent = sheetFor (currentDPR (fst sd))\<rparr>])"
proof -
  have none: "\<forall>n\<in>set (headChildren (snd sd)).
                node_id n = ''bewly-dpr-perf-fix'' \<longrightarrow> node n = node old"
    if "styleElement (fst sd) = Some old" for old
    using assms that by (auto simp add: dpr_ok_def injected_def list_all_iff)
  have none': "\<forall>n\<in>set (headChildren (snd sd)). node_id n \<noteq> ''bewly-dpr-perf-fix''"
    if "styleElement (fst sd) = None"
    using assms that by (auto simp add: dpr_ok_def injected_def list_all_iff)
  have ne: "css_dpr1 \<noteq> []" "css_low \<noteq> []" by (simp_all add: css_dpr1_def css_low_def)
  show ?thesis
  proof (cases "styleElement (fst sd)")
    case None
    then show ?thesis using none' ne
      by (auto simp add: injected_def injectOptimizationCSS_def Let_def sheetFor_def isDPR1_def
          isLowDPR_def head_appendChild_def filter_empty_conv)
  next
    case (Some old)
    then show ?thesis using none [OF Some] ne
      by (auto simp add: injected_def injectOptimizationCSS_def Let_def sheetFor_def isDPR1_def
          isLowDPR_def head_appendChild_def node_remove_def filter_empty_conv)
  qed
qed

lemma sheet_contents:
  "declared css_dpr1 = [''transition'', ''animation''] \<and> underMarker css_dpr1 \<and>
   declared css_low = [''transition''] \<and> underMarker css_low"
  by (simp add: declared_def underMarker_def css_dpr1_def css_low_def)

lemmas dpr_defs = dpr_run_def atInstance_def useDPRPerformanceFix_def dprEffect_def
  rerunEffect_def onMounted_def onUnmounted_def onResize_def cleanup_def handleChange_def
  updateDPR_def injectOptimizationCSS_def isDPR1_def isLowDPR_def head_appendChild_def
  node_remove_def classList_remove_def injected_def threeCards_def css_dpr1_def css_low_def
  declared_def promotesLayer_def Let_def

text \<open>
  Claim C7: after any injection at most one style element with the id of the fix is in
  the document, and for a device pixel ratio of 1 it holds the aggressive rules, which
  switch off transitions and animations under the marker and promote the container to
  a compositing layer of its own. The code departs from it twice. A component set up
  and mounted at a ratio of 1 does inject the first sheet, but that sheet declares
  \<^verbatim>\<open>transition\<close> and \<^verbatim>\<open>animation\<close> and nothing that promotes a layer. And unmounting
  removes the element but not the listeners: a \<^verbatim>\<open>resize\<close> after the unmount injects an
  element again, which no later \<^verbatim>\<open>cleanup\<close> or injection of another instance removes,
  so that the next component set up and mounted leaves two elements with the id in
  the document.
\<close>

theorem dpr_fix_defects:
  "map textContent (injected (snd (dpr_run [Setup 1, Mounted 0] ([], threeCards)))) =
     [css_dpr1] \<and>
   declared css_dpr1 = [''transition'', ''animation''] \<and>
   \<not> promotesLayer css_dpr1 \<and>
   length (injected (snd (dpr_run [Setup 1, Mounted 0, Unmounted 0] ([], threeCards)))) = 0 \<and>
   length (injected (snd (dpr_run [Setup 1, Mounted 0, Unmounted 0, Resize 1]
      ([], threeCards)))) = 1 \<and>
   length (injected (snd (dpr_run [Setup 1, Mounted 0, Unmounted 0, Resize 1, Setup 1, Mounted 1]
      ([], threeCards)))) = 2 \<and>
   map textContent
     (injected (snd (dpr_run [Setup 1, Mounted 0, Unmounted 0, Resize 1, Setup 1, Mounted 1]
        ([], threeCards)))) = [css_dpr1, css_dpr1]"
  by (simp add: dpr_defs)

text \<open>
  Claim C8. A task that changes the shared boolean makes the watcher perform exactly
  one mutating call on the document, \<^verbatim>\<open>classList.add\<close> or \<^verbatim>\<open>classList.remove\<close> of
  \<^verbatim>\<open>bewly-scrolling\<close> on \<^verbatim>\<open>body\<close>, according to the new value; the attributes of the
  elements, however many there are, and the children of \<^verbatim>\<open>head\<close> stay as they were. A
  task that leaves the boolean as it was leaves the document untouched.
\<close>

theorem marker_toggle:
  "(sig_isScrolling (fst (watched_step e (s, d))) \<noteq> sig_isScrolling s \<longrightarrow>
      domLog (snd (watched_step e (s, d))) =
        domLog d @ [if sig_isScrolling (fst (watched_step e (s, d)))
                    then ClassListAdd ''bewly-scrolling'' else ClassListRemove ''bewly-scrolling''] \<and>
      bodyClassList (snd (watched_step e (s, d))) =
        (if sig_isScrolling (fst (watched_step e (s, d)))
         then (if ''bewly-scrolling'' \<in> set (bodyClassList d) then bodyClassList d
               else bodyClassList d @ [''bewly-scrolling''])
         else removeAll ''bewly-scrolling'' (bodyClassList d)) \<and>
      elements (snd (watched_step e (s, d))) = elements d \<and>
      headChildren (snd (watched_step e (s, d))) = headChildren d \<and>
      nextNode (snd (watched_step e (s, d))) = nextNode d) \<and>
   (sig_isScrolling (fst (watched_step e (s, d))) = sig_isScrolling s \<longrightarrow>
      snd (watched_step e (s, d)) = d) \<and>
   fst (watched_step e (s, d)) = sig_step e s"
  by (simp add: watched_step_def Let_def scrollingWatcher_def classList_add_def classList_remove_def)

theorem marker_toggle_witness:
  "sig_isScrolling (fst (watched_step Frame (sig_run [AddScrollListener, NativeScroll] globalScrollState, threeCards))) \<noteq>
     sig_isScrolling (sig_run [AddScrollListener, NativeScroll] globalScrollState) \<and>
   domLog (snd (watched_step Frame (sig_run [AddScrollListener, NativeScroll] globalScrollState, threeCards))) =
     [ClassListAdd ''bewly-scrolling''] \<and>
   bodyClassList (snd (watched_step Frame (sig_run [AddScrollListener, NativeScroll] globalScrollState, threeCards))) =
     [''bewly-scrolling''] \<and>
   elements (snd (watched_step Frame (sig_run [AddScrollListener, NativeScroll] globalScrollState, threeCards))) =
     elements threeCards \<and>
   snd (watched_step NativeScroll (sig_run [AddScrollListener] globalScrollState, threeCards)) = threeCards"
  using marker_toggle [of Frame "sig_run [AddScrollListener, NativeScroll] globalScrollState"
      threeCards]
    marker_toggle [of NativeScroll "sig_run [AddScrollListener] globalScrollState" threeCards]
  by (simp add: sig_defs threeCards_def)

end
